theory Spec2Isabelle
  imports Main "HOL-Library.Word" "HOL-Library.Monad_Syntax"
begin

section \<open>The common code of the cpufreq governors (cpufreq\_governor.c)\<close>

text \<open>
  The file \<^verbatim>\<open>drivers/cpufreq/cpufreq_governor.c\<close> is embedded function by function.
  Machine integers are words of the width the C code gives them (\<^verbatim>\<open>unsigned int\<close> is
  32 bits wide, \<^verbatim>\<open>u64\<close> and \<^verbatim>\<open>s64\<close> are 64 bits wide), so every addition, subtraction
  and multiplication wraps around as it does in C. Pointers are addresses (natural
  numbers) into explicit stores, a null pointer is \<open>None\<close>, and a function that
  dereferences a null or unallocated pointer returns \<open>None\<close>. Error codes are the
  values of the datatype \<open>errno\<close>.
\<close>

type_synonym u32 = "32 word"
type_synonym u64 = "64 word"

subsection \<open>Data\<close>

text \<open>
  The structures are declared in \<^verbatim>\<open>cpufreq_governor.h\<close> and \<^verbatim>\<open>linux/cpufreq.h\<close>; the
  records below have the fields that \<^verbatim>\<open>cpufreq_governor.c\<close> reads or writes, with the
  types of the kernel headers. A cpumask is represented by the list of its members.
\<close>

record cpu_dbs_info =
  prev_cpu_idle :: u64
  prev_cpu_wall :: u64
  prev_cpu_nice :: u64
  prev_load :: u32
  update_util_func :: bool  \<comment> \<open>\<^verbatim>\<open>update_util.func\<close> is \<^verbatim>\<open>dbs_update_util_handler\<close> (or null)\<close>
  cdbs_policy_dbs :: "nat option"

record policy_dbs_info =
  pd_policy :: "nat option"
  sample_delay_ns :: u64  \<comment> \<open>an \<^verbatim>\<open>s64\<close>: compared as a signed number\<close>
  last_sample_time :: u64
  work_count :: u32  \<comment> \<open>an \<^verbatim>\<open>atomic_t\<close>\<close>
  pd_dbs_data :: "nat option"
  rate_mult :: u32
  is_shared :: bool
  work_in_progress :: bool

record gov_attr_set =
  policy_list :: "nat list"  \<comment> \<open>the list of \<^verbatim>\<open>policy_dbs_info\<close> objects, head first\<close>
  usage_count :: u32

record dbs_data =
  attr_set :: gov_attr_set
  min_sampling_rate :: u32
  ignore_nice_load :: u32
  sampling_rate :: u32
  io_is_busy :: u32

record cpufreq_policy =
  cpus :: "nat list"
  related_cpus :: "nat list"
  cur :: u32
  pmin :: u32  \<comment> \<open>\<^verbatim>\<open>policy->min\<close>\<close>
  pmax :: u32  \<comment> \<open>\<^verbatim>\<open>policy->max\<close>\<close>
  transition_latency :: u32  \<comment> \<open>\<^verbatim>\<open>policy->cpuinfo.transition_latency\<close>\<close>
  governor_initialized :: int  \<comment> \<open>\<^verbatim>\<open>policy->governor->initialized\<close>\<close>
  governor_data :: "nat option"

datatype errno = EBUSY | EINVAL | ENOMEM | ECODE int

datatype relation = CPUFREQ_RELATION_L | CPUFREQ_RELATION_H

datatype lock = Timer_mutex nat | Update_lock nat | Gov_dbs_data_mutex

text \<open>
  The calls that leave the file, the lock operations and the writes of
  \<^verbatim>\<open>sample_delay_ns\<close> are recorded in program order, so that a statement can say what
  was called, with which arguments, and under which lock.
\<close>

datatype event =
    Mutex_lock lock
  | Mutex_unlock lock
  | Mutex_init lock
  | Mutex_destroy lock
  | Sample_delay_write nat u64
  | Driver_target nat u32 relation
  | Irq_work_queue nat
  | Irq_work_sync nat
  | Cancel_work_sync nat
  | Set_update_util_data nat bool
  | Synchronize_rcu
  | Gov_start nat
  | Gov_exit nat bool
  | Gov_free nat
  | Kfree nat
  | Kobject_put nat
  | Kobject_init_and_add nat

record gov_state =
  cpu_dbs :: "nat \<Rightarrow> cpu_dbs_info"  \<comment> \<open>\<^verbatim>\<open>DEFINE_PER_CPU(struct cpu_dbs_info, cpu_dbs)\<close>\<close>
  policy_dbs_mem :: "nat \<rightharpoonup> policy_dbs_info"
  dbs_data_mem :: "nat \<rightharpoonup> dbs_data"
  policy_mem :: "nat \<rightharpoonup> cpufreq_policy"
  gdbs_data :: "nat option"  \<comment> \<open>\<^verbatim>\<open>gov->gdbs_data\<close>\<close>
  trace :: "event list"

text \<open>
  What the rest of the kernel supplies at the moment of a call: the idle-time source,
  the nice-time counter, the conversion \<^verbatim>\<open>cputime_to_usecs\<close>, the frequency-change
  driver (which may change the policy it is given), the parser behind
  \<^verbatim>\<open>sscanf(buf, "%u", &rate)\<close>, the allocators, and the callbacks of the governor
  (\<^verbatim>\<open>struct dbs_governor\<close>).
\<close>

record kernel =
  get_cpu_idle_time :: "nat \<Rightarrow> u32 \<Rightarrow> u64 \<times> u64"  \<comment> \<open>(idle time, wall time)\<close>
  kcpustat_nice :: "nat \<Rightarrow> u64"
  cputime_to_usecs :: "u64 \<Rightarrow> u64"
  driver_target :: "cpufreq_policy \<Rightarrow> u32 \<Rightarrow> relation \<Rightarrow> cpufreq_policy"
  sscanf_u :: "string \<Rightarrow> u32 option"  \<comment> \<open>the number read, \<open>None\<close> when \<^verbatim>\<open>sscanf\<close> does not return 1\<close>
  have_governor_per_policy :: bool
  gov_alloc :: "(nat \<times> policy_dbs_info) option"  \<comment> \<open>\<^verbatim>\<open>gov->alloc()\<close>: address and contents, or null\<close>
  kzalloc_dbs_data :: "nat option"  \<comment> \<open>the address \<^verbatim>\<open>kzalloc\<close> returns, or null\<close>
  gov_init :: "dbs_data \<Rightarrow> bool \<Rightarrow> (errno + unit) \<times> dbs_data"  \<comment> \<open>\<^verbatim>\<open>gov->init\<close>\<close>
  kobject_init_and_add :: "errno + unit"

definition emit :: "event list \<Rightarrow> gov_state \<Rightarrow> gov_state" where
  "emit es s = s\<lparr>trace := trace s @ es\<rparr>"

definition for_each_cpu :: "nat list \<Rightarrow> nat list" where
  "for_each_cpu cpumask = sort (remdups cpumask)"

subsection \<open>dbs\_update\<close>

text \<open>The body of the loop of \<^verbatim>\<open>dbs_update\<close> for processor \<open>j\<close>: the load of the
  processor (\<open>None\<close> when the processor is skipped by \<^verbatim>\<open>continue\<close>) and its updated
  per-processor data.\<close>

definition dbs_update_cpu ::
  "kernel \<Rightarrow> u32 \<Rightarrow> u32 \<Rightarrow> u32 \<Rightarrow> nat \<Rightarrow> cpu_dbs_info \<Rightarrow> u32 option \<times> cpu_dbs_info" where
  "dbs_update_cpu k ignore_nice io_busy sr j j_cdbs =
    (let (cur_idle_time, cur_wall_time) = get_cpu_idle_time k j io_busy;
         wall_time = (ucast (cur_wall_time - prev_cpu_wall j_cdbs) :: u32);
         c1 = j_cdbs\<lparr>prev_cpu_wall := cur_wall_time\<rparr>;
         idle_time0 = (ucast (cur_idle_time - prev_cpu_idle c1) :: u32);
         c2 = c1\<lparr>prev_cpu_idle := cur_idle_time\<rparr>;
         (idle_time, c3) =
           (if ignore_nice \<noteq> 0 then
              (let cur_nice = kcpustat_nice k j in
                (idle_time0 + ucast (cputime_to_usecs k (cur_nice - prev_cpu_nice c2)),
                 c2\<lparr>prev_cpu_nice := cur_nice\<rparr>))
            else (idle_time0, c2))
     in if wall_time = 0 \<or> wall_time < idle_time then (None, c3)
        else if wall_time > 2 * sr \<and> prev_load c3 \<noteq> 0 then
          (Some (prev_load c3), c3\<lparr>prev_load := 0\<rparr>)
        else
          (let load = 100 * (wall_time - idle_time) div wall_time
           in (Some load, c3\<lparr>prev_load := load\<rparr>)))"

fun dbs_update_loop ::
  "kernel \<Rightarrow> u32 \<Rightarrow> u32 \<Rightarrow> u32 \<Rightarrow> nat list \<Rightarrow> u32 \<Rightarrow> (nat \<Rightarrow> cpu_dbs_info)
    \<Rightarrow> u32 \<times> (nat \<Rightarrow> cpu_dbs_info)" where
  "dbs_update_loop k ignore_nice io_busy sr [] max_load cd = (max_load, cd)"
| "dbs_update_loop k ignore_nice io_busy sr (j # js) max_load cd =
    (case dbs_update_cpu k ignore_nice io_busy sr j (cd j) of
      (None, c) \<Rightarrow> dbs_update_loop k ignore_nice io_busy sr js max_load (cd(j := c))
    | (Some load, c) \<Rightarrow>
        dbs_update_loop k ignore_nice io_busy sr js
          (if load > max_load then load else max_load) (cd(j := c)))"

definition dbs_update :: "kernel \<Rightarrow> nat \<Rightarrow> gov_state \<Rightarrow> (u32 \<times> gov_state) option" where
  "dbs_update k p s = do {
     policy \<leftarrow> policy_mem s p;
     pd \<leftarrow> governor_data policy;
     policy_dbs \<leftarrow> policy_dbs_mem s pd;
     dd \<leftarrow> pd_dbs_data policy_dbs;
     dbs \<leftarrow> dbs_data_mem s dd;
     let ignore_nice = ignore_nice_load dbs;
     let sr = sampling_rate dbs * rate_mult policy_dbs;
     let io_busy = io_is_busy dbs;
     let (max_load, cd) =
       dbs_update_loop k ignore_nice io_busy sr (for_each_cpu (cpus policy)) 0 (cpu_dbs s);
     Some (max_load, s\<lparr>cpu_dbs := cd\<rparr>)
   }"

subsection \<open>The sample delay\<close>

text \<open>
  Modelled from the spec: \<^verbatim>\<open>gov_update_sample_delay\<close>, an inline function of
  \<^verbatim>\<open>cpufreq_governor.h\<close>, which is not among the sources. The sample delay of a domain is
  kept in nanoseconds; the function is given the delay in microseconds and stores it,
  multiplied by \<^verbatim>\<open>NSEC_PER_USEC\<close> in 64-bit arithmetic, in \<^verbatim>\<open>sample_delay_ns\<close>.
\<close>

definition gov_update_sample_delay :: "nat \<Rightarrow> u32 \<Rightarrow> gov_state \<Rightarrow> gov_state option" where
  "gov_update_sample_delay pd delay_us s = do {
     policy_dbs \<leftarrow> policy_dbs_mem s pd;
     let ns = (ucast delay_us :: u64) * 1000;
     Some (emit [Sample_delay_write pd ns]
       (s\<lparr>policy_dbs_mem := (policy_dbs_mem s)(pd \<mapsto> policy_dbs\<lparr>sample_delay_ns := ns\<rparr>)\<rparr>))
   }"

subsection \<open>store\_sampling\_rate and governor\_store\<close>

text \<open>The loop \<^verbatim>\<open>list_for_each_entry(policy_dbs, &attr_set->policy_list, list)\<close>.\<close>

fun store_sampling_rate_loop :: "nat list \<Rightarrow> gov_state \<Rightarrow> gov_state option" where
  "store_sampling_rate_loop [] s = Some s"
| "store_sampling_rate_loop (pd # pds) s = do {
     s1 \<leftarrow> gov_update_sample_delay pd 0 (emit [Mutex_lock (Timer_mutex pd)] s);
     store_sampling_rate_loop pds (emit [Mutex_unlock (Timer_mutex pd)] s1)
   }"

text \<open>
  The value that a result stands for in C: a count that is not negative, or a negative
  error number (\<^verbatim>\<open>EBUSY\<close> is 16, \<^verbatim>\<open>EINVAL\<close> is 22 and \<^verbatim>\<open>ENOMEM\<close> is 12 in
  \<^verbatim>\<open>errno-base.h\<close>; \<open>ECODE v\<close> is any other negative value \<open>v\<close>), and the result that a
  value stands for.
\<close>

fun retval :: "errno + nat \<Rightarrow> int" where
  "retval (Inr n) = int n"
| "retval (Inl EBUSY) = - 16"
| "retval (Inl EINVAL) = - 22"
| "retval (Inl ENOMEM) = - 12"
| "retval (Inl (ECODE v)) = v"

definition result_of :: "int \<Rightarrow> errno + nat" where
  "result_of v =
    (if 0 \<le> v then Inr (nat v)
     else if v = - 16 then Inl EBUSY
     else if v = - 22 then Inl EINVAL
     else if v = - 12 then Inl ENOMEM
     else Inl (ECODE v))"

text \<open>\<^verbatim>\<open>return count\<close> in a function that returns \<^verbatim>\<open>ssize_t\<close>: the \<^verbatim>\<open>size_t\<close> is read as a
  signed 64-bit number.\<close>

definition ssize_of_size :: "u64 \<Rightarrow> errno + nat" where
  "ssize_of_size count = result_of (sint count)"

text \<open>The attribute set is a member of \<^verbatim>\<open>struct dbs_data\<close>: \<open>d\<close> is the address of the
  \<^verbatim>\<open>dbs_data\<close> that \<^verbatim>\<open>to_dbs_data(attr_set)\<close> yields. The argument \<open>count\<close> is a
  \<^verbatim>\<open>size_t\<close>.\<close>

definition store_sampling_rate ::
  "kernel \<Rightarrow> nat \<Rightarrow> string \<Rightarrow> u64 \<Rightarrow> gov_state \<Rightarrow> ((errno + nat) \<times> gov_state) option" where
  "store_sampling_rate k d buf count s =
    (case sscanf_u k buf of
      None \<Rightarrow> Some (Inl EINVAL, s)
    | Some rate \<Rightarrow> do {
        dbs \<leftarrow> dbs_data_mem s d;
        let dbs1 = dbs\<lparr>sampling_rate := max rate (min_sampling_rate dbs)\<rparr>;
        let s1 = s\<lparr>dbs_data_mem := (dbs_data_mem s)(d \<mapsto> dbs1)\<rparr>;
        s2 \<leftarrow> store_sampling_rate_loop (policy_list (attr_set dbs1)) s1;
        Some (ssize_of_size count, s2)
      })"

text \<open>\<^verbatim>\<open>governor_store\<close> keeps the result of the callback in an \<^verbatim>\<open>int\<close>: the value is cut
  to its low 32 bits, read as a signed number.\<close>

definition int_of_ssize :: "errno + nat \<Rightarrow> errno + nat" where
  "int_of_ssize r = result_of (sint (word_of_int (retval r) :: 32 word))"

text \<open>The parameter \<open>store\<close> is the callback \<^verbatim>\<open>gattr->store\<close> of the attribute.\<close>

definition governor_store ::
  "(nat \<Rightarrow> string \<Rightarrow> u64 \<Rightarrow> gov_state \<Rightarrow> ((errno + nat) \<times> gov_state) option)
    \<Rightarrow> nat \<Rightarrow> string \<Rightarrow> u64 \<Rightarrow> gov_state \<Rightarrow> ((errno + nat) \<times> gov_state) option" where
  "governor_store store d buf count s = do {
     let s1 = emit [Mutex_lock (Update_lock d)] s;
     dbs \<leftarrow> dbs_data_mem s1 d;
     (ret, s2) \<leftarrow>
       (if usage_count (attr_set dbs) \<noteq> 0 then do {
          (r, s') \<leftarrow> store d buf count s1;
          Some (int_of_ssize r, s')
        }
        else Some (Inl EBUSY, s1));
     Some (ret, emit [Mutex_unlock (Update_lock d)] s2)
   }"

subsection \<open>The utilization update hook\<close>

definition gov_set_update_util :: "nat \<Rightarrow> u32 \<Rightarrow> gov_state \<Rightarrow> gov_state option" where
  "gov_set_update_util pd delay_us s = do {
     policy_dbs \<leftarrow> policy_dbs_mem s pd;
     p \<leftarrow> pd_policy policy_dbs;
     s1 \<leftarrow> gov_update_sample_delay pd delay_us s;
     policy_dbs1 \<leftarrow> policy_dbs_mem s1 pd;
     let s2 = s1\<lparr>policy_dbs_mem := (policy_dbs_mem s1)(pd \<mapsto> policy_dbs1\<lparr>last_sample_time := 0\<rparr>)\<rparr>;
     policy \<leftarrow> policy_mem s2 p;
     Some (emit (map (\<lambda>cpu. Set_update_util_data cpu True) (for_each_cpu (cpus policy))) s2)
   }"

definition gov_clear_update_util :: "nat \<Rightarrow> gov_state \<Rightarrow> gov_state option" where
  "gov_clear_update_util p s = do {
     policy \<leftarrow> policy_mem s p;
     Some (emit (map (\<lambda>i. Set_update_util_data i False) (for_each_cpu (cpus policy))
       @ [Synchronize_rcu]) s)
   }"

definition gov_cancel_work :: "nat \<Rightarrow> gov_state \<Rightarrow> gov_state option" where
  "gov_cancel_work p s = do {
     policy \<leftarrow> policy_mem s p;
     pd \<leftarrow> governor_data policy;
     policy_dbs \<leftarrow> policy_dbs_mem s pd;
     p' \<leftarrow> pd_policy policy_dbs;
     s1 \<leftarrow> gov_clear_update_util p' s;
     let s2 = emit [Irq_work_sync pd, Cancel_work_sync pd] s1;
     policy_dbs2 \<leftarrow> policy_dbs_mem s2 pd;
     Some (s2\<lparr>policy_dbs_mem := (policy_dbs_mem s2)
       (pd \<mapsto> policy_dbs2\<lparr>work_count := 0, work_in_progress := False\<rparr>)\<rparr>)
   }"

text \<open>The parameter \<open>gov_dbs_timer\<close> is the callback \<^verbatim>\<open>gov->gov_dbs_timer\<close>; \<open>pd\<close> is
  the \<^verbatim>\<open>policy_dbs_info\<close> that contains the work item.\<close>

definition dbs_work_handler ::
  "(nat \<Rightarrow> gov_state \<Rightarrow> (u32 \<times> gov_state) option) \<Rightarrow> nat \<Rightarrow> gov_state \<Rightarrow> gov_state option" where
  "dbs_work_handler gov_dbs_timer pd s = do {
     policy_dbs \<leftarrow> policy_dbs_mem s pd;
     p \<leftarrow> pd_policy policy_dbs;
     (delay, s1) \<leftarrow> gov_dbs_timer p (emit [Mutex_lock (Timer_mutex pd)] s);
     s2 \<leftarrow> gov_update_sample_delay pd delay s1;
     let s3 = emit [Mutex_unlock (Timer_mutex pd)] s2;
     policy_dbs3 \<leftarrow> policy_dbs_mem s3 pd;
     Some (s3\<lparr>policy_dbs_mem := (policy_dbs_mem s3)
       (pd \<mapsto> policy_dbs3\<lparr>work_count := 0, work_in_progress := False\<rparr>)\<rparr>)
   }"

text \<open>
  \<^verbatim>\<open>dbs_update_util_handler\<close>, run to its end without another processor in between. The
  argument \<open>cpu\<close> is the processor whose \<^verbatim>\<open>cpu_dbs_info\<close> contains \<^verbatim>\<open>data\<close>; the
  arguments \<^verbatim>\<open>util\<close> and \<^verbatim>\<open>max\<close> are not used by the function.
  \<^verbatim>\<open>atomic_add_unless(&work_count, 1, 1)\<close> adds 1 unless the counter is 1.
\<close>

definition dbs_update_util_handler :: "nat \<Rightarrow> u64 \<Rightarrow> gov_state \<Rightarrow> gov_state option" where
  "dbs_update_util_handler cpu time s = do {
     pd \<leftarrow> cdbs_policy_dbs (cpu_dbs s cpu);
     policy_dbs \<leftarrow> policy_dbs_mem s pd;
     if work_in_progress policy_dbs then Some s
     else do {
       let lst = last_sample_time policy_dbs;
       let delta_ns = time - lst;
       if sint delta_ns < sint (sample_delay_ns policy_dbs) then Some s
       else do {
         let queue = (\<lambda>pdi. emit [Irq_work_queue pd]
           (s\<lparr>policy_dbs_mem := (policy_dbs_mem s)
             (pd \<mapsto> pdi\<lparr>last_sample_time := time, work_in_progress := True\<rparr>)\<rparr>));
         if is_shared policy_dbs then
           (if work_count policy_dbs = 1 then Some s
            else do {
              let policy_dbs1 = policy_dbs\<lparr>work_count := work_count policy_dbs + 1\<rparr>;
              if lst \<noteq> last_sample_time policy_dbs1 then
                Some (s\<lparr>policy_dbs_mem := (policy_dbs_mem s)(pd \<mapsto> policy_dbs1\<lparr>work_count := 0\<rparr>)\<rparr>)
              else Some (queue policy_dbs1)
            })
         else Some (queue policy_dbs)
       }
     }
   }"

subsection \<open>Allocation of the per-policy data and the attribute set\<close>

definition alloc_policy_dbs_info ::
  "kernel \<Rightarrow> nat \<Rightarrow> gov_state \<Rightarrow> (nat option \<times> gov_state) option" where
  "alloc_policy_dbs_info k p s =
    (case gov_alloc k of
      None \<Rightarrow> Some (None, s)
    | Some (pd, obj) \<Rightarrow> do {
        let obj1 = obj\<lparr>pd_policy := Some p, work_count := 0\<rparr>;
        let s1 = emit [Mutex_init (Timer_mutex pd)]
          (s\<lparr>policy_dbs_mem := (policy_dbs_mem s)(pd \<mapsto> obj1)\<rparr>);
        policy \<leftarrow> policy_mem s1 p;
        let cd = fold
          (\<lambda>j cd. cd(j := (cd j)\<lparr>update_util_func := True, cdbs_policy_dbs := Some pd\<rparr>))
          (for_each_cpu (related_cpus policy)) (cpu_dbs s1);
        Some (Some pd, s1\<lparr>cpu_dbs := cd\<rparr>)
      })"

definition free_policy_dbs_info :: "nat \<Rightarrow> gov_state \<Rightarrow> gov_state option" where
  "free_policy_dbs_info pd s = do {
     let s1 = emit [Mutex_destroy (Timer_mutex pd)] s;
     policy_dbs \<leftarrow> policy_dbs_mem s1 pd;
     p \<leftarrow> pd_policy policy_dbs;
     policy \<leftarrow> policy_mem s1 p;
     let cd = fold
       (\<lambda>j cd. cd(j := (cd j)\<lparr>update_util_func := False, cdbs_policy_dbs := None\<rparr>))
       (for_each_cpu (related_cpus policy)) (cpu_dbs s1);
     Some (emit [Gov_free pd] (s1\<lparr>cpu_dbs := cd, policy_dbs_mem := (policy_dbs_mem s1)(pd := None)\<rparr>))
   }"

definition gov_attr_set_init :: "nat \<Rightarrow> nat \<Rightarrow> gov_state \<Rightarrow> gov_state option" where
  "gov_attr_set_init d pd s = do {
     dbs \<leftarrow> dbs_data_mem s d;
     let dbs1 = dbs\<lparr>attr_set := (attr_set dbs)\<lparr>policy_list := [pd], usage_count := 1\<rparr>\<rparr>;
     Some (emit [Mutex_init (Update_lock d)] (s\<lparr>dbs_data_mem := (dbs_data_mem s)(d \<mapsto> dbs1)\<rparr>))
   }"

definition gov_attr_set_get :: "nat \<Rightarrow> nat \<Rightarrow> gov_state \<Rightarrow> gov_state option" where
  "gov_attr_set_get d pd s = do {
     let s1 = emit [Mutex_lock (Update_lock d)] s;
     dbs \<leftarrow> dbs_data_mem s1 d;
     let dbs1 = dbs\<lparr>attr_set := (attr_set dbs)
       \<lparr>policy_list := pd # policy_list (attr_set dbs),
        usage_count := usage_count (attr_set dbs) + 1\<rparr>\<rparr>;
     Some (emit [Mutex_unlock (Update_lock d)] (s1\<lparr>dbs_data_mem := (dbs_data_mem s1)(d \<mapsto> dbs1)\<rparr>))
   }"

definition gov_attr_set_put :: "nat \<Rightarrow> nat \<Rightarrow> gov_state \<Rightarrow> (u32 \<times> gov_state) option" where
  "gov_attr_set_put d pd s = do {
     let s1 = emit [Mutex_lock (Update_lock d)] s;
     dbs \<leftarrow> dbs_data_mem s1 d;
     let count = usage_count (attr_set dbs) - 1;
     let dbs1 = dbs\<lparr>attr_set := (attr_set dbs)
       \<lparr>policy_list := removeAll pd (policy_list (attr_set dbs)), usage_count := count\<rparr>\<rparr>;
     let s2 = emit [Mutex_unlock (Update_lock d)] (s1\<lparr>dbs_data_mem := (dbs_data_mem s1)(d \<mapsto> dbs1)\<rparr>);
     if count \<noteq> 0 then Some (count, s2)
     else Some (0, emit [Kobject_put d, Mutex_destroy (Update_lock d)] s2)
   }"

subsection \<open>The governor's transitions\<close>

text \<open>Constants of \<^verbatim>\<open>linux/cpufreq.h\<close>.\<close>

definition MIN_LATENCY_MULTIPLIER :: u32 where "MIN_LATENCY_MULTIPLIER = 20"
definition LATENCY_MULTIPLIER :: u32 where "LATENCY_MULTIPLIER = 1000"
definition CPUFREQ_GOV_START :: u32 where "CPUFREQ_GOV_START = 1"
definition CPUFREQ_GOV_STOP :: u32 where "CPUFREQ_GOV_STOP = 2"
definition CPUFREQ_GOV_LIMITS :: u32 where "CPUFREQ_GOV_LIMITS = 3"
definition CPUFREQ_GOV_POLICY_INIT :: u32 where "CPUFREQ_GOV_POLICY_INIT = 4"
definition CPUFREQ_GOV_POLICY_EXIT :: u32 where "CPUFREQ_GOV_POLICY_EXIT = 5"

definition dbs_data_zero :: dbs_data where
  "dbs_data_zero = \<lparr>attr_set = \<lparr>policy_list = [], usage_count = 0\<rparr>, min_sampling_rate = 0,
     ignore_nice_load = 0, sampling_rate = 0, io_is_busy = 0\<rparr>"

definition set_governor_data :: "nat \<Rightarrow> nat option \<Rightarrow> gov_state \<Rightarrow> gov_state option" where
  "set_governor_data p v s = do {
     policy \<leftarrow> policy_mem s p;
     Some (s\<lparr>policy_mem := (policy_mem s)(p \<mapsto> policy\<lparr>governor_data := v\<rparr>)\<rparr>)
   }"

definition set_pd_dbs_data :: "nat \<Rightarrow> nat option \<Rightarrow> gov_state \<Rightarrow> gov_state option" where
  "set_pd_dbs_data pd v s = do {
     policy_dbs \<leftarrow> policy_dbs_mem s pd;
     Some (s\<lparr>policy_dbs_mem := (policy_dbs_mem s)(pd \<mapsto> policy_dbs\<lparr>pd_dbs_data := v\<rparr>)\<rparr>)
   }"

text \<open>The part of \<^verbatim>\<open>cpufreq_governor_init\<close> that runs under \<^verbatim>\<open>gov_dbs_data_mutex\<close>, up to
  the label \<^verbatim>\<open>out\<close>; the label \<^verbatim>\<open>free_policy_dbs_info\<close> is the call of
  \<open>free_policy_dbs_info\<close> in the failing branches.\<close>

definition cpufreq_governor_init_locked ::
  "kernel \<Rightarrow> nat \<Rightarrow> nat \<Rightarrow> gov_state \<Rightarrow> ((errno + unit) \<times> gov_state) option" where
  "cpufreq_governor_init_locked k p pd s =
    (case gdbs_data s of
      Some d \<Rightarrow>
        if have_governor_per_policy k then do {
          s1 \<leftarrow> free_policy_dbs_info pd s;
          Some (Inl EINVAL, s1)
        }
        else do {
          s1 \<leftarrow> set_pd_dbs_data pd (Some d) s;
          s2 \<leftarrow> set_governor_data p (Some pd) s1;
          s3 \<leftarrow> gov_attr_set_get d pd s2;
          Some (Inr (), s3)
        }
    | None \<Rightarrow>
        (case kzalloc_dbs_data k of
          None \<Rightarrow> do {
            s1 \<leftarrow> free_policy_dbs_info pd s;
            Some (Inl ENOMEM, s1)
          }
        | Some d \<Rightarrow> do {
            s1 \<leftarrow> gov_attr_set_init d pd (s\<lparr>dbs_data_mem := (dbs_data_mem s)(d \<mapsto> dbs_data_zero)\<rparr>);
            policy \<leftarrow> policy_mem s1 p;
            dbs \<leftarrow> dbs_data_mem s1 d;
            let (ret, dbs1) = gov_init k dbs (governor_initialized policy = 0);
            let s2 = s1\<lparr>dbs_data_mem := (dbs_data_mem s1)(d \<mapsto> dbs1)\<rparr>;
            case ret of
              Inl e \<Rightarrow> do {
                s3 \<leftarrow> free_policy_dbs_info pd s2;
                Some (Inl e, s3)
              }
            | Inr _ \<Rightarrow> do {
                let latency0 = transition_latency policy div 1000;
                let latency = (if latency0 = 0 then 1 else latency0);
                let msr = max (min_sampling_rate dbs1) (MIN_LATENCY_MULTIPLIER * latency);
                let dbs2 = dbs1\<lparr>min_sampling_rate := msr,
                  sampling_rate := max msr (LATENCY_MULTIPLIER * latency)\<rparr>;
                let s3 = s2\<lparr>dbs_data_mem := (dbs_data_mem s2)(d \<mapsto> dbs2)\<rparr>;
                let s4 = (if \<not> have_governor_per_policy k then s3\<lparr>gdbs_data := Some d\<rparr> else s3);
                s5 \<leftarrow> set_pd_dbs_data pd (Some d) s4;
                s6 \<leftarrow> set_governor_data p (Some pd) s5;
                let s7 = emit [Kobject_init_and_add d] s6;
                case kobject_init_and_add k of
                  Inr _ \<Rightarrow> Some (Inr (), s7)
                | Inl e \<Rightarrow> do {
                    s8 \<leftarrow> set_governor_data p None s7;
                    let s9 = (if \<not> have_governor_per_policy k then s8\<lparr>gdbs_data := None\<rparr> else s8);
                    let s10 = emit [Gov_exit d (governor_initialized policy = 0), Kfree d]
                      (s9\<lparr>dbs_data_mem := (dbs_data_mem s9)(d := None)\<rparr>);
                    s11 \<leftarrow> free_policy_dbs_info pd s10;
                    Some (Inl e, s11)
                  }
              }
          }))"

definition cpufreq_governor_init ::
  "kernel \<Rightarrow> nat \<Rightarrow> gov_state \<Rightarrow> ((errno + unit) \<times> gov_state) option" where
  "cpufreq_governor_init k p s = do {
     policy \<leftarrow> policy_mem s p;
     if governor_data policy \<noteq> None then Some (Inl EBUSY, s)
     else do {
       (r, s1) \<leftarrow> alloc_policy_dbs_info k p s;
       case r of
         None \<Rightarrow> Some (Inl ENOMEM, s1)
       | Some pd \<Rightarrow> do {
           (ret, s2) \<leftarrow> cpufreq_governor_init_locked k p pd (emit [Mutex_lock Gov_dbs_data_mutex] s1);
           Some (ret, emit [Mutex_unlock Gov_dbs_data_mutex] s2)
         }
     }
   }"

definition cpufreq_governor_exit ::
  "kernel \<Rightarrow> nat \<Rightarrow> gov_state \<Rightarrow> ((errno + unit) \<times> gov_state) option" where
  "cpufreq_governor_exit k p s = do {
     policy \<leftarrow> policy_mem s p;
     pd \<leftarrow> governor_data policy;
     policy_dbs \<leftarrow> policy_dbs_mem s pd;
     d \<leftarrow> pd_dbs_data policy_dbs;
     (count, s1) \<leftarrow> gov_attr_set_put d pd (emit [Mutex_lock Gov_dbs_data_mutex] s);
     s2 \<leftarrow> set_governor_data p None s1;
     let s3 = (if count = 0 then
         emit [Gov_exit d (governor_initialized policy = 1), Kfree d]
           ((if \<not> have_governor_per_policy k then s2\<lparr>gdbs_data := None\<rparr> else s2)
             \<lparr>dbs_data_mem := (dbs_data_mem s2)(d := None)\<rparr>)
       else s2);
     s4 \<leftarrow> free_policy_dbs_info pd s3;
     Some (Inr (), emit [Mutex_unlock Gov_dbs_data_mutex] s4)
   }"

text \<open>\<^verbatim>\<open>policy_is_shared\<close> (\<^verbatim>\<open>linux/cpufreq.h\<close>): the policy has more than one processor.\<close>

definition policy_is_shared :: "cpufreq_policy \<Rightarrow> bool" where
  "policy_is_shared policy = (length (for_each_cpu (cpus policy)) > 1)"

text \<open>The body of the loop of \<^verbatim>\<open>cpufreq_governor_start\<close> for processor \<open>j\<close>.\<close>

definition start_cpu :: "kernel \<Rightarrow> u32 \<Rightarrow> u32 \<Rightarrow> nat \<Rightarrow> cpu_dbs_info \<Rightarrow> cpu_dbs_info" where
  "start_cpu k ignore_nice io_busy j j_cdbs =
    (let (idle, wall) = get_cpu_idle_time k j io_busy;
         c1 = j_cdbs\<lparr>prev_cpu_wall := wall, prev_cpu_idle := idle\<rparr>;
         c2 = c1\<lparr>prev_load := 0\<rparr>
     in if ignore_nice \<noteq> 0 then c2\<lparr>prev_cpu_nice := kcpustat_nice k j\<rparr> else c2)"

definition cpufreq_governor_start ::
  "kernel \<Rightarrow> nat \<Rightarrow> gov_state \<Rightarrow> ((errno + unit) \<times> gov_state) option" where
  "cpufreq_governor_start k p s = do {
     policy \<leftarrow> policy_mem s p;
     pd \<leftarrow> governor_data policy;
     policy_dbs \<leftarrow> policy_dbs_mem s pd;
     if cur policy = 0 then Some (Inl EINVAL, s)
     else do {
       let s1 = s\<lparr>policy_dbs_mem := (policy_dbs_mem s)
         (pd \<mapsto> policy_dbs\<lparr>is_shared := policy_is_shared policy, rate_mult := 1\<rparr>)\<rparr>;
       d \<leftarrow> pd_dbs_data policy_dbs;
       dbs \<leftarrow> dbs_data_mem s1 d;
       let sr = sampling_rate dbs;
       let ignore_nice = ignore_nice_load dbs;
       let io_busy = io_is_busy dbs;
       let cd = fold (\<lambda>j cd. cd(j := start_cpu k ignore_nice io_busy j (cd j)))
         (for_each_cpu (cpus policy)) (cpu_dbs s1);
       let s2 = emit [Gov_start p] (s1\<lparr>cpu_dbs := cd\<rparr>);
       s3 \<leftarrow> gov_set_update_util pd sr s2;
       Some (Inr (), s3)
     }
   }"

definition cpufreq_governor_stop ::
  "nat \<Rightarrow> gov_state \<Rightarrow> ((errno + unit) \<times> gov_state) option" where
  "cpufreq_governor_stop p s = do {
     s1 \<leftarrow> gov_cancel_work p s;
     Some (Inr (), s1)
   }"

definition cpufreq_driver_target :: "kernel \<Rightarrow> nat \<Rightarrow> u32 \<Rightarrow> relation \<Rightarrow> gov_state \<Rightarrow> gov_state option" where
  "cpufreq_driver_target k p target rel s = do {
     policy \<leftarrow> policy_mem s p;
     Some (emit [Driver_target p target rel]
       (s\<lparr>policy_mem := (policy_mem s)(p \<mapsto> driver_target k policy target rel)\<rparr>))
   }"

definition cpufreq_governor_limits ::
  "kernel \<Rightarrow> nat \<Rightarrow> gov_state \<Rightarrow> ((errno + unit) \<times> gov_state) option" where
  "cpufreq_governor_limits k p s = do {
     policy \<leftarrow> policy_mem s p;
     pd \<leftarrow> governor_data policy;
     let s1 = emit [Mutex_lock (Timer_mutex pd)] s;
     s2 \<leftarrow> (if pmax policy < cur policy then
              cpufreq_driver_target k p (pmax policy) CPUFREQ_RELATION_H s1
            else if pmin policy > cur policy then
              cpufreq_driver_target k p (pmin policy) CPUFREQ_RELATION_L s1
            else Some s1);
     s3 \<leftarrow> gov_update_sample_delay pd 0 s2;
     Some (Inr (), emit [Mutex_unlock (Timer_mutex pd)] s3)
   }"

definition cpufreq_governor_dbs ::
  "kernel \<Rightarrow> nat \<Rightarrow> u32 \<Rightarrow> gov_state \<Rightarrow> ((errno + unit) \<times> gov_state) option" where
  "cpufreq_governor_dbs k p event s =
    (if event = CPUFREQ_GOV_POLICY_INIT then cpufreq_governor_init k p s
     else do {
       policy \<leftarrow> policy_mem s p;
       if governor_data policy \<noteq> None then
         (if event = CPUFREQ_GOV_POLICY_EXIT then cpufreq_governor_exit k p s
          else if event = CPUFREQ_GOV_START then cpufreq_governor_start k p s
          else if event = CPUFREQ_GOV_STOP then cpufreq_governor_stop p s
          else if event = CPUFREQ_GOV_LIMITS then cpufreq_governor_limits k p s
          else Some (Inl EINVAL, s))
       else Some (Inl EINVAL, s)
     })"

subsection \<open>Auxiliary notions used in the statements\<close>

text \<open>The wall-time and idle-time deltas that \<^verbatim>\<open>dbs_update\<close> computes for processor \<open>j\<close>
  from the readings \<open>k\<close> and the per-processor data \<open>c\<close>: \<^verbatim>\<open>wall_time\<close> and \<^verbatim>\<open>idle_time\<close>
  at the test \<^verbatim>\<open>!wall_time || wall_time < idle_time\<close>.\<close>

definition wall_delta :: "kernel \<Rightarrow> u32 \<Rightarrow> nat \<Rightarrow> cpu_dbs_info \<Rightarrow> u32" where
  "wall_delta k io_busy j c = ucast (snd (get_cpu_idle_time k j io_busy) - prev_cpu_wall c)"

definition idle_delta :: "kernel \<Rightarrow> u32 \<Rightarrow> u32 \<Rightarrow> nat \<Rightarrow> cpu_dbs_info \<Rightarrow> u32" where
  "idle_delta k ignore_nice io_busy j c =
     ucast (fst (get_cpu_idle_time k j io_busy) - prev_cpu_idle c)
     + (if ignore_nice \<noteq> 0
        then ucast (cputime_to_usecs k (kcpustat_nice k j - prev_cpu_nice c)) else 0)"

subsection \<open>A concrete domain\<close>

text \<open>A policy at address 1 with processors 0 and 1, its per-policy data at address 10
  and its tunables at address 20; sampling rate 20000 us. The readings \<open>kernel0\<close> give
  processor 0 a wall time of 20000 us of which 15000 us idle, and processor 1 a wall time
  of 20000 us of which 5000 us idle.\<close>

definition cdbs0 :: cpu_dbs_info where
  "cdbs0 = \<lparr>prev_cpu_idle = 0, prev_cpu_wall = 0, prev_cpu_nice = 0, prev_load = 0,
     update_util_func = True, cdbs_policy_dbs = Some 10\<rparr>"

definition policy0 :: cpufreq_policy where
  "policy0 = \<lparr>cpus = [0, 1], related_cpus = [0, 1], cur = 1000, pmin = 500, pmax = 2000,
     transition_latency = 50000, governor_initialized = 1, governor_data = Some 10\<rparr>"

definition policy_dbs0 :: policy_dbs_info where
  "policy_dbs0 = \<lparr>pd_policy = Some 1, sample_delay_ns = 20000000, last_sample_time = 0,
     work_count = 0, pd_dbs_data = Some 20, rate_mult = 1, is_shared = True,
     work_in_progress = False\<rparr>"

definition dbs_data0 :: dbs_data where
  "dbs_data0 = \<lparr>attr_set = \<lparr>policy_list = [10], usage_count = 1\<rparr>, min_sampling_rate = 10000,
     ignore_nice_load = 0, sampling_rate = 20000, io_is_busy = 0\<rparr>"

definition state0 :: gov_state where
  "state0 = \<lparr>cpu_dbs = (\<lambda>j. cdbs0), policy_dbs_mem = [10 \<mapsto> policy_dbs0],
     dbs_data_mem = [20 \<mapsto> dbs_data0], policy_mem = [1 \<mapsto> policy0], gdbs_data = Some 20,
     trace = []\<rparr>"

definition kernel0 :: kernel where
  "kernel0 = \<lparr>get_cpu_idle_time = (\<lambda>j io. if j = 0 then (15000, 20000) else (5000, 20000)),
     kcpustat_nice = (\<lambda>j. 0), cputime_to_usecs = (\<lambda>x. x),
     driver_target = (\<lambda>policy target rel. policy\<lparr>cur := target\<rparr>),
     sscanf_u = (\<lambda>buf. if buf = ''5000'' then Some 5000 else None),
     have_governor_per_policy = False,
     gov_alloc = None, kzalloc_dbs_data = None,
     gov_init = (\<lambda>dbs notify. (Inr (), dbs)), kobject_init_and_add = Inr ()\<rparr>"

text \<open>The same domain after a long idle period: the cached load of every processor is 80,
  and the readings \<open>kernel1\<close> show a wall time of 100000 us (more than twice the sampling
  rate) of which 90000 us idle. The readings \<open>kernel2\<close> come 20000 us later, 5000 us of
  them idle.\<close>

definition state1 :: gov_state where
  "state1 = state0\<lparr>cpu_dbs := (\<lambda>j. cdbs0\<lparr>prev_load := 80\<rparr>)\<rparr>"

definition kernel1 :: kernel where
  "kernel1 = kernel0\<lparr>get_cpu_idle_time := (\<lambda>j io. (90000, 100000))\<rparr>"

definition kernel2 :: kernel where
  "kernel2 = kernel0\<lparr>get_cpu_idle_time := (\<lambda>j io. (95000, 120000))\<rparr>"

text \<open>What the loop of \<^verbatim>\<open>store_sampling_rate\<close> does to the store of per-policy data and
  what it records, for the list \<open>pds\<close> of registered domains.\<close>

definition zero_delays :: "nat list \<Rightarrow> (nat \<rightharpoonup> policy_dbs_info) \<Rightarrow> (nat \<rightharpoonup> policy_dbs_info)" where
  "zero_delays pds m =
    (\<lambda>pd. if pd \<in> set pds then map_option (\<lambda>pdi. pdi\<lparr>sample_delay_ns := 0\<rparr>) (m pd) else m pd)"

definition delay_events :: "nat list \<Rightarrow> event list" where
  "delay_events pds = concat (map (\<lambda>pd.
     [Mutex_lock (Timer_mutex pd), Sample_delay_write pd 0, Mutex_unlock (Timer_mutex pd)]) pds)"

definition is_driver_target :: "event \<Rightarrow> bool" where
  "is_driver_target e = (case e of Driver_target p t r \<Rightarrow> True | _ \<Rightarrow> False)"

text \<open>Variants of the concrete domain: tunables that no domain uses any more, a current
  frequency above \<^verbatim>\<open>policy->max\<close>, one below \<^verbatim>\<open>policy->min\<close>, and a policy without governor
  data.\<close>

definition state_unused :: gov_state where
  "state_unused = state0\<lparr>dbs_data_mem :=
     [20 \<mapsto> dbs_data0\<lparr>attr_set := \<lparr>policy_list = [], usage_count = 0\<rparr>\<rparr>]\<rparr>"

definition state_high :: gov_state where
  "state_high = state0\<lparr>policy_mem := [1 \<mapsto> policy0\<lparr>cur := 3000\<rparr>]\<rparr>"

definition state_low :: gov_state where
  "state_low = state0\<lparr>policy_mem := [1 \<mapsto> policy0\<lparr>cur := 100\<rparr>]\<rparr>"

definition state_uninit :: gov_state where
  "state_uninit = state0\<lparr>policy_mem := [1 \<mapsto> policy0\<lparr>governor_data := None\<rparr>]\<rparr>"

text \<open>The concrete domain as a stop leaves it some time after its last sample: a last
  sample time of 987654321000 ns, a sample delay of 0 and cached loads of 80.\<close>

definition state_stopped :: gov_state where
  "state_stopped = state0\<lparr>cpu_dbs := (\<lambda>j. cdbs0\<lparr>prev_load := 80\<rparr>),
     policy_dbs_mem := [10 \<mapsto> policy_dbs0\<lparr>sample_delay_ns := 0, last_sample_time := 987654321000\<rparr>]\<rparr>"

text \<open>Every cached load is at most 100.\<close>

definition cache_bounded :: "gov_state \<Rightarrow> bool" where
  "cache_bounded s = (\<forall>j. prev_load (cpu_dbs s j) \<le> 100)"

section \<open>Properties\<close>

subsection \<open>The load computed by dbs\_update\<close>

lemma dbs_update_cpu_load:
  "fst (dbs_update_cpu k ig io sr j c) =
    (if wall_delta k io j c = 0 \<or> wall_delta k io j c < idle_delta k ig io j c then None
     else if 2 * sr < wall_delta k io j c \<and> prev_load c \<noteq> 0 then Some (prev_load c)
     else Some (100 * (wall_delta k io j c - idle_delta k ig io j c) div wall_delta k io j c))"
  by (simp add: dbs_update_cpu_def wall_delta_def idle_delta_def Let_def split: prod.splits)

lemma dbs_update_cpu_prev_load:
  "prev_load (snd (dbs_update_cpu k ig io sr j c)) =
    (if wall_delta k io j c = 0 \<or> wall_delta k io j c < idle_delta k ig io j c then prev_load c
     else if 2 * sr < wall_delta k io j c \<and> prev_load c \<noteq> 0 then 0
     else 100 * (wall_delta k io j c - idle_delta k ig io j c) div wall_delta k io j c)"
  by (simp add: dbs_update_cpu_def wall_delta_def idle_delta_def Let_def split: prod.splits)

lemma load_le_100:
  fixes w i :: u32
  assumes "w \<noteq> 0" "\<not> w < i"
  shows "100 * (w - i) div w \<le> 100"
proof -
  have iw: "i \<le> w" using assms by simp
  have uw: "0 < unat w" using assms(1) by (simp add: unat_gt_0)
  have e: "unat (100 * (w - i) div w) = unat (100 * (w - i)) div unat w"
    by (rule unat_div)
  have m: "unat (100 * x) \<le> 100 * unat x" for x :: u32
  proof -
    have "unat (100 * x) = (unat (100 :: u32) * unat x) mod 2 ^ LENGTH(32)"
      by (rule unat_word_ariths)
    also have "\<dots> \<le> unat (100 :: u32) * unat x" by (rule mod_less_eq_dividend)
    finally show ?thesis by simp
  qed
  have "unat (w - i) \<le> unat w"
    using iw by (simp add: unat_sub)
  with m [of "w - i"] have "unat (100 * (w - i)) \<le> 100 * unat w" by linarith
  then have "unat (100 * (w - i) div w) \<le> (100 * unat w) div unat w"
    unfolding e by (rule div_le_mono)
  then have "unat (100 * (w - i) div w) \<le> 100" using uw by simp
  then show ?thesis by (simp add: word_le_nat_alt)
qed

lemma for_each_cpu_set [simp]: "set (for_each_cpu m) = set m"
  by (simp add: for_each_cpu_def)

lemma for_each_cpu_distinct [simp]: "distinct (for_each_cpu m)"
  by (simp add: for_each_cpu_def)

lemma dbs_update_loop_data:
  "distinct js \<Longrightarrow>
    snd (dbs_update_loop k ig io sr js m cd) =
      (\<lambda>j. if j \<in> set js then snd (dbs_update_cpu k ig io sr j (cd j)) else cd j)"
proof (induction js arbitrary: m cd)
  case Nil
  then show ?case by simp
next
  case (Cons a js)
  then have a: "a \<notin> set js" and d: "distinct js" by simp_all
  show ?case
    using a by (auto simp: Cons.IH [OF d] fun_eq_iff split: prod.splits option.splits)
qed

lemma dbs_update_loop_Cons:
  "dbs_update_cpu k ig io sr a (cd a) = (r, c) \<Longrightarrow>
    dbs_update_loop k ig io sr (a # js) m cd =
      dbs_update_loop k ig io sr js
        (case r of None \<Rightarrow> m | Some l \<Rightarrow> if m < l then l else m) (cd(a := c))"
  by (simp split: option.splits)

lemma dbs_update_loop_mono: "m \<le> fst (dbs_update_loop k ig io sr js m cd)"
proof (induction js arbitrary: m cd)
  case Nil
  then show ?case by simp
next
  case (Cons a js)
  obtain r c where rc: "dbs_update_cpu k ig io sr a (cd a) = (r, c)"
    by (cases "dbs_update_cpu k ig io sr a (cd a)")
  define m1 where "m1 = (case r of None \<Rightarrow> m | Some l \<Rightarrow> if m < l then l else m)"
  have "m \<le> m1" by (auto simp: m1_def split: option.splits)
  also have "m1 \<le> fst (dbs_update_loop k ig io sr js m1 (cd(a := c)))" by (rule Cons.IH)
  finally show ?case unfolding dbs_update_loop_Cons [where cd = cd and a = a, OF rc] m1_def .
qed

lemma dbs_update_loop_upper:
  "distinct js \<Longrightarrow> j \<in> set js \<Longrightarrow> fst (dbs_update_cpu k ig io sr j (cd j)) = Some l \<Longrightarrow>
    l \<le> fst (dbs_update_loop k ig io sr js m cd)"
proof (induction js arbitrary: m cd)
  case Nil
  then show ?case by simp
next
  case (Cons a js)
  then have a: "a \<notin> set js" and d: "distinct js" by simp_all
  obtain r c where rc: "dbs_update_cpu k ig io sr a (cd a) = (r, c)"
    by (cases "dbs_update_cpu k ig io sr a (cd a)")
  define m1 where "m1 = (case r of None \<Rightarrow> m | Some l \<Rightarrow> if m < l then l else m)"
  define cd1 where "cd1 = cd(a := c)"
  have step: "dbs_update_loop k ig io sr (a # js) m cd = dbs_update_loop k ig io sr js m1 cd1"
    unfolding m1_def cd1_def by (rule dbs_update_loop_Cons [where cd = cd and a = a, OF rc])
  show ?case
  proof (cases "j = a")
    case True
    with Cons.prems(3) rc have r: "r = Some l" by simp
    have "l \<le> m1" by (auto simp: m1_def r)
    also have "m1 \<le> fst (dbs_update_loop k ig io sr js m1 cd1)" by (rule dbs_update_loop_mono)
    finally show ?thesis unfolding step .
  next
    case False
    with Cons.prems have j: "j \<in> set js" by simp
    from False Cons.prems(3) have e: "fst (dbs_update_cpu k ig io sr j (cd1 j)) = Some l"
      by (simp add: cd1_def)
    show ?thesis unfolding step using Cons.IH [of cd1 m1] d j e by blast
  qed
qed

lemma dbs_update_loop_attained:
  "distinct js \<Longrightarrow>
    fst (dbs_update_loop k ig io sr js m cd) = m \<or>
    (\<exists>j\<in>set js. fst (dbs_update_cpu k ig io sr j (cd j)) = Some (fst (dbs_update_loop k ig io sr js m cd)))"
proof (induction js arbitrary: m cd)
  case Nil
  then show ?case by simp
next
  case (Cons a js)
  then have a: "a \<notin> set js" and d: "distinct js" by simp_all
  obtain r c where rc: "dbs_update_cpu k ig io sr a (cd a) = (r, c)"
    by (cases "dbs_update_cpu k ig io sr a (cd a)")
  define m1 where "m1 = (case r of None \<Rightarrow> m | Some l \<Rightarrow> if m < l then l else m)"
  define cd1 where "cd1 = cd(a := c)"
  have step: "dbs_update_loop k ig io sr (a # js) m cd = dbs_update_loop k ig io sr js m1 cd1"
    unfolding m1_def cd1_def by (rule dbs_update_loop_Cons [where cd = cd and a = a, OF rc])
  define res where "res = fst (dbs_update_loop k ig io sr js m1 cd1)"
  have same: "cd1 j = cd j" if "j \<in> set js" for j using that a by (auto simp: cd1_def)
  have m1: "m1 = m \<or> r = Some m1" by (auto simp: m1_def split: option.splits)
  from Cons.IH [OF d, of m1 cd1]
  consider "res = m1" | j where "j \<in> set js" "fst (dbs_update_cpu k ig io sr j (cd1 j)) = Some res"
    unfolding res_def by blast
  then have "res = m \<or> (\<exists>j\<in>set (a # js). fst (dbs_update_cpu k ig io sr j (cd j)) = Some res)"
  proof cases
    case 1
    with m1 rc show ?thesis by auto
  next
    case 2
    then show ?thesis using same by auto
  qed
  then show ?case unfolding step res_def .
qed

lemma dbs_update_eq:
  assumes "policy_mem s p = Some policy" "governor_data policy = Some pd"
    "policy_dbs_mem s pd = Some policy_dbs" "pd_dbs_data policy_dbs = Some d"
    "dbs_data_mem s d = Some dbs"
  shows "dbs_update k p s =
    Some (fst (dbs_update_loop k (ignore_nice_load dbs) (io_is_busy dbs)
                (sampling_rate dbs * rate_mult policy_dbs) (for_each_cpu (cpus policy)) 0 (cpu_dbs s)),
          s\<lparr>cpu_dbs := snd (dbs_update_loop k (ignore_nice_load dbs) (io_is_busy dbs)
                (sampling_rate dbs * rate_mult policy_dbs) (for_each_cpu (cpus policy)) 0 (cpu_dbs s))\<rparr>)"
  using assms by (simp add: dbs_update_def split: prod.splits)

text \<open>
  Claim C1. For every policy domain whose pointers are valid and every vector of
  idle/wall readings, \<^verbatim>\<open>dbs_update\<close> returns, and the load it returns lies in [0, 100]
  and is the maximum of the loads of the processors of the policy: it is at least the load
  of every processor, and it is the load of one of them, or 0. A processor contributes no
  load exactly when its wall-time delta is zero or smaller than its idle-time delta, so
  the division \<^verbatim>\<open>100 * (wall_time - idle_time) / wall_time\<close> is done with a positive
  divisor only, and its result, in the 32-bit arithmetic of the code, is at most 100.
  The cached loads are 0 or the load of an earlier sample: they are at most 100 before the
  call, and again after it (the last subsection shows that every operation of the file keeps
  this bound).
\<close>

theorem dbs_update_load_bounded_max:
  fixes k :: kernel
  assumes mem: "policy_mem s p = Some policy" "governor_data policy = Some pd"
    "policy_dbs_mem s pd = Some policy_dbs" "pd_dbs_data policy_dbs = Some d"
    "dbs_data_mem s d = Some dbs"
    and cache: "\<forall>j\<in>set (cpus policy). prev_load (cpu_dbs s j) \<le> 100"
  defines "w \<equiv> \<lambda>j. wall_delta k (io_is_busy dbs) j (cpu_dbs s j)"
    and "i \<equiv> \<lambda>j. idle_delta k (ignore_nice_load dbs) (io_is_busy dbs) j (cpu_dbs s j)"
    and "cpu_load \<equiv> \<lambda>j. fst (dbs_update_cpu k (ignore_nice_load dbs) (io_is_busy dbs)
      (sampling_rate dbs * rate_mult policy_dbs) j (cpu_dbs s j))"
  shows "\<exists>load s'. dbs_update k p s = Some (load, s') \<and> 0 \<le> load \<and> load \<le> 100
    \<and> (\<forall>j\<in>set (cpus policy). \<forall>l. cpu_load j = Some l \<longrightarrow> l \<le> load)
    \<and> (load = 0 \<or> (\<exists>j\<in>set (cpus policy). cpu_load j = Some load))
    \<and> (\<forall>j\<in>set (cpus policy). (cpu_load j = None) = (w j = 0 \<or> w j < i j))
    \<and> (\<forall>j\<in>set (cpus policy). cpu_load j \<noteq> None \<longrightarrow>
          0 < w j \<and> 100 * (w j - i j) div w j \<le> 100)
    \<and> (\<forall>j\<in>set (cpus policy). prev_load (cpu_dbs s' j) \<le> 100)"
proof -
  define js where "js = for_each_cpu (cpus policy)"
  define ig where "ig = ignore_nice_load dbs"
  define io where "io = io_is_busy dbs"
  define sr where "sr = sampling_rate dbs * rate_mult policy_dbs"
  define load where "load = fst (dbs_update_loop k ig io sr js 0 (cpu_dbs s))"
  define cd where "cd = snd (dbs_update_loop k ig io sr js 0 (cpu_dbs s))"
  have run: "dbs_update k p s = Some (load, s\<lparr>cpu_dbs := cd\<rparr>)"
    unfolding load_def cd_def js_def ig_def io_def sr_def by (rule dbs_update_eq [OF mem])
  have dist: "distinct js" and set: "set js = set (cpus policy)" by (simp_all add: js_def)
  have cl: "cpu_load j = fst (dbs_update_cpu k ig io sr j (cpu_dbs s j))" for j
    by (simp add: cpu_load_def ig_def io_def sr_def)
  have none: "(cpu_load j = None) = (w j = 0 \<or> w j < i j)" for j
    by (simp add: cl dbs_update_cpu_load w_def i_def ig_def io_def)
  have each: "l \<le> 100" if "j \<in> set (cpus policy)" "cpu_load j = Some l" for j l
  proof -
    from that(2) have ns: "w j \<noteq> 0" "\<not> w j < i j" using none [of j] by auto
    from that(1) cache have c: "prev_load (cpu_dbs s j) \<le> 100" by blast
    from that(2) have "l = prev_load (cpu_dbs s j) \<or> l = 100 * (w j - i j) div w j"
      by (auto simp: cl dbs_update_cpu_load w_def i_def ig_def io_def split: if_splits)
    with c load_le_100 [OF ns] show ?thesis by auto
  qed
  have upper: "l \<le> load" if "j \<in> set (cpus policy)" "cpu_load j = Some l" for j l
    unfolding load_def using dbs_update_loop_upper [of js j k ig io sr "cpu_dbs s" l 0] dist set that cl
    by simp
  have att: "load = 0 \<or> (\<exists>j\<in>set (cpus policy). cpu_load j = Some load)"
    using dbs_update_loop_attained [OF dist, of k ig io sr 0 "cpu_dbs s"]
    unfolding load_def [symmetric] set cl [symmetric] .
  have bound: "load \<le> 100" using att each by auto
  have div: "0 < w j \<and> 100 * (w j - i j) div w j \<le> 100" if "cpu_load j \<noteq> None" for j
  proof -
    from that have ns: "w j \<noteq> 0" "\<not> w j < i j" using none [of j] by auto
    with load_le_100 [OF ns] show ?thesis by (simp add: word_greater_zero_iff)
  qed
  have cdj: "cd j = snd (dbs_update_cpu k ig io sr j (cpu_dbs s j))" if "j \<in> set (cpus policy)" for j
    using that by (simp add: cd_def dbs_update_loop_data [OF dist] set)
  have inv: "prev_load (cd j) \<le> 100" if "j \<in> set (cpus policy)" for j
  proof -
    from that cache have c: "prev_load (cpu_dbs s j) \<le> 100" by blast
    show ?thesis
      unfolding cdj [OF that] dbs_update_cpu_prev_load
      using c load_le_100 [of "wall_delta k io j (cpu_dbs s j)" "idle_delta k ig io j (cpu_dbs s j)"]
      by auto
  qed
  show ?thesis
    using run bound upper att none div inv by auto
qed

theorem dbs_update_load_bounded_max_witness:
  "policy_mem state0 1 = Some policy0 \<and> governor_data policy0 = Some 10
    \<and> policy_dbs_mem state0 10 = Some policy_dbs0 \<and> pd_dbs_data policy_dbs0 = Some 20
    \<and> dbs_data_mem state0 20 = Some dbs_data0
    \<and> (\<exists>s'. dbs_update kernel0 1 state0 = Some (75, s')
          \<and> prev_load (cpu_dbs s' 0) = 25 \<and> prev_load (cpu_dbs s' 1) = 75)
    \<and> fst (dbs_update_cpu kernel0 0 0 20000 0 cdbs0) = Some 25
    \<and> fst (dbs_update_cpu kernel0 0 0 20000 1 cdbs0) = Some 75"
proof -
  have mem: "policy_mem state0 1 = Some policy0" "governor_data policy0 = Some 10"
    "policy_dbs_mem state0 10 = Some policy_dbs0" "pd_dbs_data policy_dbs0 = Some 20"
    "dbs_data_mem state0 20 = Some dbs_data0"
    by (simp_all add: state0_def policy0_def policy_dbs0_def)
  have cache: "\<forall>j\<in>set (cpus policy0). prev_load (cpu_dbs state0 j) \<le> 100"
    by (simp add: state0_def cdbs0_def)
  have l0: "fst (dbs_update_cpu kernel0 0 0 20000 0 cdbs0) = Some 25"
    and l1: "fst (dbs_update_cpu kernel0 0 0 20000 1 cdbs0) = Some 75"
    by (simp_all add: dbs_update_cpu_def kernel0_def cdbs0_def)
  have run: "\<exists>s'. dbs_update kernel0 1 state0 = Some (75, s')
      \<and> prev_load (cpu_dbs s' 0) = 25 \<and> prev_load (cpu_dbs s' 1) = 75"
    using dbs_update_load_bounded_max [OF mem cache, of kernel0]
    by (simp add: dbs_update_def state0_def policy0_def policy_dbs0_def dbs_data0_def
        for_each_cpu_def dbs_update_cpu_def kernel0_def cdbs0_def)
  from mem l0 l1 run show ?thesis by simp
qed

subsection \<open>The idle-wake heuristic\<close>

text \<open>
  The comparison with twice the effective sampling interval and the division are done on
  32-bit words. Where the products do not exceed 32 bits they are the comparison and the
  quotient of the natural numbers.
\<close>

lemma twice_interval_no_overflow:
  fixes sr rm w :: u32
  assumes "2 * (unat sr * unat rm) < 2 ^ 32"
  shows "(2 * (sr * rm) < w) = (2 * (unat sr * unat rm) < unat w)"
proof -
  have lt: "unat sr * unat rm < 2 ^ 32" using assms by linarith
  have "unat (sr * rm) = (unat sr * unat rm) mod 2 ^ LENGTH(32)"
    by (rule unat_word_ariths)
  also have "\<dots> = unat sr * unat rm" using lt by simp
  finally have a: "unat (sr * rm) = unat sr * unat rm" .
  have "unat (2 * (sr * rm)) = (unat (2 :: u32) * unat (sr * rm)) mod 2 ^ LENGTH(32)"
    by (rule unat_word_ariths)
  also have "\<dots> = 2 * (unat sr * unat rm)" using assms by (simp add: a)
  finally show ?thesis by (simp add: word_less_nat_alt)
qed

lemma load_no_overflow:
  fixes w i :: u32
  assumes "\<not> w < i" "100 * (unat w - unat i) < 2 ^ 32"
  shows "unat (100 * (w - i) div w) = 100 * (unat w - unat i) div unat w"
proof -
  have iw: "i \<le> w" using assms(1) by simp
  have d: "unat (w - i) = unat w - unat i" using iw by (simp add: unat_sub)
  have "unat (100 * (w - i)) = (unat (100 :: u32) * unat (w - i)) mod 2 ^ LENGTH(32)"
    by (rule unat_word_ariths)
  also have "\<dots> = 100 * (unat w - unat i)" using assms(2) by (simp add: d)
  finally have m: "unat (100 * (w - i)) = 100 * (unat w - unat i)" .
  have "unat (100 * (w - i) div w) = unat (100 * (w - i)) div unat w" by (rule unat_div)
  then show ?thesis by (simp only: m)
qed

lemma dbs_update_cpu_snapshot:
  "prev_cpu_wall (snd (dbs_update_cpu k ig io sr j c)) = snd (get_cpu_idle_time k j io)"
  "prev_cpu_idle (snd (dbs_update_cpu k ig io sr j c)) = fst (get_cpu_idle_time k j io)"
  by (simp_all add: dbs_update_cpu_def Let_def split: prod.splits)

lemma dbs_update_result:
  assumes mem: "policy_mem s p = Some policy" "governor_data policy = Some pd"
    "policy_dbs_mem s pd = Some policy_dbs" "pd_dbs_data policy_dbs = Some d"
    "dbs_data_mem s d = Some dbs"
  shows "\<exists>load cd. dbs_update k p s = Some (load, s\<lparr>cpu_dbs := cd\<rparr>)
    \<and> (\<forall>j\<in>set (cpus policy).
          cd j = snd (dbs_update_cpu k (ignore_nice_load dbs) (io_is_busy dbs)
            (sampling_rate dbs * rate_mult policy_dbs) j (cpu_dbs s j))
          \<and> (\<forall>l. fst (dbs_update_cpu k (ignore_nice_load dbs) (io_is_busy dbs)
            (sampling_rate dbs * rate_mult policy_dbs) j (cpu_dbs s j)) = Some l \<longrightarrow> l \<le> load))
    \<and> (\<forall>j. j \<notin> set (cpus policy) \<longrightarrow> cd j = cpu_dbs s j)"
proof -
  define js where "js = for_each_cpu (cpus policy)"
  define ig where "ig = ignore_nice_load dbs"
  define io where "io = io_is_busy dbs"
  define sr where "sr = sampling_rate dbs * rate_mult policy_dbs"
  define load where "load = fst (dbs_update_loop k ig io sr js 0 (cpu_dbs s))"
  define cd where "cd = snd (dbs_update_loop k ig io sr js 0 (cpu_dbs s))"
  have run: "dbs_update k p s = Some (load, s\<lparr>cpu_dbs := cd\<rparr>)"
    unfolding load_def cd_def js_def ig_def io_def sr_def by (rule dbs_update_eq [OF mem])
  have dist: "distinct js" and set: "set js = set (cpus policy)" by (simp_all add: js_def)
  have cd: "cd = (\<lambda>j. if j \<in> set js then snd (dbs_update_cpu k ig io sr j (cpu_dbs s j)) else cpu_dbs s j)"
    unfolding cd_def by (rule dbs_update_loop_data [OF dist])
  have upper: "l \<le> load"
    if "j \<in> set (cpus policy)" "fst (dbs_update_cpu k ig io sr j (cpu_dbs s j)) = Some l" for j l
    unfolding load_def using dbs_update_loop_upper [of js j k ig io sr "cpu_dbs s" l 0] dist set that
    by simp
  show ?thesis
    using run upper by (auto simp: cd set ig_def io_def sr_def)
qed

text \<open>
  Claim C2. Let processor \<open>j\<close> of the policy be considered in a sample (its wall-time delta
  \<open>w\<close> is not zero and not below its idle-time delta \<open>i\<close>). If \<open>w\<close> exceeds twice the
  effective sampling interval \<^verbatim>\<open>sampling_rate * rate_mult\<close> and the cached load is not zero,
  the load of the processor for this sample is the cached load and the cache becomes 0;
  otherwise the load is \<^verbatim>\<open>100 * (w - i) / w\<close> and is stored in the cache. All arithmetic is
  the unsigned 32-bit arithmetic of the code (see the two lemmas above). In both cases the snapshot of the counters
  is replaced by the current readings. Consequently, when the first sample reused the
  cached load, the next sample in which the processor is considered, whatever its
  readings \<open>k2\<close>, computes the load from the deltas against the readings of the first sample:
  the cached load is reused at most once.
\<close>

theorem dbs_update_idle_wake_once:
  fixes k :: kernel
  assumes mem: "policy_mem s p = Some policy" "governor_data policy = Some pd"
    "policy_dbs_mem s pd = Some policy_dbs" "pd_dbs_data policy_dbs = Some d"
    "dbs_data_mem s d = Some dbs"
    and j: "j \<in> set (cpus policy)"
  defines "ig \<equiv> ignore_nice_load dbs" and "io \<equiv> io_is_busy dbs"
    and "sr \<equiv> sampling_rate dbs * rate_mult policy_dbs"
  defines "w \<equiv> wall_delta k io j (cpu_dbs s j)"
    and "i \<equiv> idle_delta k ig io j (cpu_dbs s j)"
  assumes considered: "w \<noteq> 0" "\<not> w < i"
  shows "\<exists>load s'. dbs_update k p s = Some (load, s')
    \<and> (if 2 * sr < w \<and> prev_load (cpu_dbs s j) \<noteq> 0
        then fst (dbs_update_cpu k ig io sr j (cpu_dbs s j)) = Some (prev_load (cpu_dbs s j))
          \<and> prev_load (cpu_dbs s j) \<le> load \<and> prev_load (cpu_dbs s' j) = 0
        else fst (dbs_update_cpu k ig io sr j (cpu_dbs s j)) = Some (100 * (w - i) div w)
          \<and> 100 * (w - i) div w \<le> load \<and> prev_load (cpu_dbs s' j) = 100 * (w - i) div w)
    \<and> prev_cpu_wall (cpu_dbs s' j) = snd (get_cpu_idle_time k j io)
    \<and> prev_cpu_idle (cpu_dbs s' j) = fst (get_cpu_idle_time k j io)
    \<and> (\<forall>k2. 2 * sr < w \<and> prev_load (cpu_dbs s j) \<noteq> 0
          \<and> wall_delta k2 io j (cpu_dbs s' j) \<noteq> 0
          \<and> \<not> wall_delta k2 io j (cpu_dbs s' j) < idle_delta k2 ig io j (cpu_dbs s' j) \<longrightarrow>
        (\<exists>load2 s''. dbs_update k2 p s' = Some (load2, s'')
          \<and> fst (dbs_update_cpu k2 ig io sr j (cpu_dbs s' j)) =
              Some (100 * (wall_delta k2 io j (cpu_dbs s' j) - idle_delta k2 ig io j (cpu_dbs s' j))
                      div wall_delta k2 io j (cpu_dbs s' j))
          \<and> prev_load (cpu_dbs s'' j) =
              100 * (wall_delta k2 io j (cpu_dbs s' j) - idle_delta k2 ig io j (cpu_dbs s' j))
                div wall_delta k2 io j (cpu_dbs s' j)
          \<and> prev_load (cpu_dbs s'' j) \<le> load2))"
proof -
  from dbs_update_result [OF mem, of k] obtain load cd where
    run: "dbs_update k p s = Some (load, s\<lparr>cpu_dbs := cd\<rparr>)"
    and cdj: "cd j = snd (dbs_update_cpu k ig io sr j (cpu_dbs s j))"
    and up: "\<And>l. fst (dbs_update_cpu k ig io sr j (cpu_dbs s j)) = Some l \<Longrightarrow> l \<le> load"
    using j unfolding ig_def io_def sr_def by blast
  define s' where "s' = s\<lparr>cpu_dbs := cd\<rparr>"
  have mem': "policy_mem s' p = Some policy" "governor_data policy = Some pd"
    "policy_dbs_mem s' pd = Some policy_dbs" "pd_dbs_data policy_dbs = Some d"
    "dbs_data_mem s' d = Some dbs"
    using mem by (simp_all add: s'_def)
  have cs': "cpu_dbs s' j = snd (dbs_update_cpu k ig io sr j (cpu_dbs s j))"
    by (simp add: s'_def cdj)
  have lj: "fst (dbs_update_cpu k ig io sr j (cpu_dbs s j)) =
      (if 2 * sr < w \<and> prev_load (cpu_dbs s j) \<noteq> 0 then Some (prev_load (cpu_dbs s j))
       else Some (100 * (w - i) div w))"
    unfolding dbs_update_cpu_load w_def [symmetric] i_def [symmetric] using considered by simp
  have pj: "prev_load (cpu_dbs s' j) =
      (if 2 * sr < w \<and> prev_load (cpu_dbs s j) \<noteq> 0 then 0 else 100 * (w - i) div w)"
    unfolding cs' dbs_update_cpu_prev_load w_def [symmetric] i_def [symmetric] using considered by simp
  have first: "if 2 * sr < w \<and> prev_load (cpu_dbs s j) \<noteq> 0
        then fst (dbs_update_cpu k ig io sr j (cpu_dbs s j)) = Some (prev_load (cpu_dbs s j))
          \<and> prev_load (cpu_dbs s j) \<le> load \<and> prev_load (cpu_dbs s' j) = 0
        else fst (dbs_update_cpu k ig io sr j (cpu_dbs s j)) = Some (100 * (w - i) div w)
          \<and> 100 * (w - i) div w \<le> load \<and> prev_load (cpu_dbs s' j) = 100 * (w - i) div w"
  proof (cases "2 * sr < w \<and> prev_load (cpu_dbs s j) \<noteq> 0")
    case True
    then have c: "(2 * sr < w \<and> prev_load (cpu_dbs s j) \<noteq> 0) = True" by blast
    have l: "fst (dbs_update_cpu k ig io sr j (cpu_dbs s j)) = Some (prev_load (cpu_dbs s j))"
      by (simp only: lj c if_True)
    have "prev_load (cpu_dbs s' j) = 0" by (simp only: pj c if_True)
    with l up [OF l] show ?thesis by (simp only: c if_True simp_thms)
  next
    case False
    then have c: "(2 * sr < w \<and> prev_load (cpu_dbs s j) \<noteq> 0) = False" by blast
    have l: "fst (dbs_update_cpu k ig io sr j (cpu_dbs s j)) = Some (100 * (w - i) div w)"
      by (simp only: lj c if_False)
    have "prev_load (cpu_dbs s' j) = 100 * (w - i) div w" by (simp only: pj c if_False)
    with l up [OF l] show ?thesis by (simp only: c if_False simp_thms)
  qed
  have snap: "prev_cpu_wall (cpu_dbs s' j) = snd (get_cpu_idle_time k j io)"
    "prev_cpu_idle (cpu_dbs s' j) = fst (get_cpu_idle_time k j io)"
    by (simp_all add: cs' dbs_update_cpu_snapshot)
  have second: "\<exists>load2 s''. dbs_update k2 p s' = Some (load2, s'')
          \<and> fst (dbs_update_cpu k2 ig io sr j (cpu_dbs s' j)) = Some (100 * (w2 - i2) div w2)
          \<and> prev_load (cpu_dbs s'' j) = 100 * (w2 - i2) div w2
          \<and> prev_load (cpu_dbs s'' j) \<le> load2"
    if fired: "2 * sr < w" "prev_load (cpu_dbs s j) \<noteq> 0"
      and w2: "w2 = wall_delta k2 io j (cpu_dbs s' j)" and i2: "i2 = idle_delta k2 ig io j (cpu_dbs s' j)"
      and c2: "w2 \<noteq> 0" "\<not> w2 < i2" for k2 w2 i2
  proof -
    from first fired have zero: "prev_load (cpu_dbs s' j) = 0" by simp
    from dbs_update_result [OF mem', of k2] obtain load2 cd2 where
      run2: "dbs_update k2 p s' = Some (load2, s'\<lparr>cpu_dbs := cd2\<rparr>)"
      and cdj2: "cd2 j = snd (dbs_update_cpu k2 ig io sr j (cpu_dbs s' j))"
      and up2: "\<And>l. fst (dbs_update_cpu k2 ig io sr j (cpu_dbs s' j)) = Some l \<Longrightarrow> l \<le> load2"
      using j unfolding ig_def io_def sr_def by blast
    have l2: "fst (dbs_update_cpu k2 ig io sr j (cpu_dbs s' j)) = Some (100 * (w2 - i2) div w2)"
      unfolding dbs_update_cpu_load w2 [symmetric] i2 [symmetric] using c2 zero by simp
    have p2: "prev_load (cd2 j) = 100 * (w2 - i2) div w2"
      unfolding cdj2 dbs_update_cpu_prev_load w2 [symmetric] i2 [symmetric] using c2 zero by simp
    from up2 [OF l2] p2 have "prev_load (cd2 j) \<le> load2" by simp
    with run2 l2 p2 show ?thesis by simp
  qed
  show ?thesis
    using run first snap second unfolding s'_def [symmetric] by blast
qed

theorem dbs_update_idle_wake_once_witness:
  "policy_mem state1 1 = Some policy0 \<and> 0 \<in> set (cpus policy0)
    \<and> wall_delta kernel1 0 0 (cpu_dbs state1 0) = 100000
    \<and> idle_delta kernel1 0 0 0 (cpu_dbs state1 0) = 90000
    \<and> (\<exists>s'. dbs_update kernel1 1 state1 = Some (80, s') \<and> prev_load (cpu_dbs s' 0) = 0
          \<and> wall_delta kernel2 0 0 (cpu_dbs s' 0) = 20000
          \<and> idle_delta kernel2 0 0 0 (cpu_dbs s' 0) = 5000
          \<and> (\<exists>s''. dbs_update kernel2 1 s' = Some (75, s'') \<and> prev_load (cpu_dbs s'' 0) = 75))"
proof -
  have mem: "policy_mem state1 1 = Some policy0" "governor_data policy0 = Some 10"
    "policy_dbs_mem state1 10 = Some policy_dbs0" "pd_dbs_data policy_dbs0 = Some 20"
    "dbs_data_mem state1 20 = Some dbs_data0"
    by (simp_all add: state1_def state0_def policy0_def policy_dbs0_def)
  have j: "0 \<in> set (cpus policy0)" by (simp add: policy0_def)
  have w: "wall_delta kernel1 (io_is_busy dbs_data0) 0 (cpu_dbs state1 0) = 100000"
    and i: "idle_delta kernel1 (ignore_nice_load dbs_data0) (io_is_busy dbs_data0) 0 (cpu_dbs state1 0)
      = 90000"
    by (simp_all add: wall_delta_def idle_delta_def kernel1_def kernel0_def state1_def state0_def
        cdbs0_def dbs_data0_def)
  have c: "wall_delta kernel1 (io_is_busy dbs_data0) 0 (cpu_dbs state1 0) \<noteq> 0"
    "\<not> wall_delta kernel1 (io_is_busy dbs_data0) 0 (cpu_dbs state1 0)
      < idle_delta kernel1 (ignore_nice_load dbs_data0) (io_is_busy dbs_data0) 0 (cpu_dbs state1 0)"
    by (simp_all add: w i)
  have run: "\<exists>s'. dbs_update kernel1 1 state1 = Some (80, s') \<and> prev_load (cpu_dbs s' 0) = 0
      \<and> wall_delta kernel2 0 0 (cpu_dbs s' 0) = 20000
      \<and> idle_delta kernel2 0 0 0 (cpu_dbs s' 0) = 5000
      \<and> (\<exists>s''. dbs_update kernel2 1 s' = Some (75, s'') \<and> prev_load (cpu_dbs s'' 0) = 75)"
    using dbs_update_idle_wake_once [OF mem j c]
    by (simp add: dbs_update_def state1_def state0_def policy0_def policy_dbs0_def dbs_data0_def
        for_each_cpu_def dbs_update_cpu_def kernel1_def kernel2_def kernel0_def cdbs0_def
        wall_delta_def idle_delta_def)
  from mem(1) j w i run show ?thesis by (simp add: dbs_data0_def)
qed


subsection \<open>Writing the sampling rate\<close>

text \<open>A \<^verbatim>\<open>size_t\<close> below \<open>2 ^ 63\<close> is returned as it is; from \<open>2 ^ 63\<close> on the \<^verbatim>\<open>ssize_t\<close>
  returned is negative. The error numbers pass through the \<^verbatim>\<open>int\<close> of \<^verbatim>\<open>governor_store\<close>
  unchanged.\<close>

lemma sint_small:
  fixes t :: u64
  assumes "unat t < 2 ^ 63"
  shows "sint t = uint t"
proof -
  have "int (unat t) < int (2 ^ 63)" using assms by (simp only: of_nat_less_iff)
  then have u: "uint t < 2 ^ 63" by simp
  have l: "- (2 ^ 63) \<le> uint t"
  proof -
    have "(0::int) \<le> uint t" by simp
    moreover have "- (2 ^ 63) \<le> (0::int)" by simp
    ultimately show ?thesis by (rule order_trans [rotated])
  qed
  have "sint t = signed_take_bit (LENGTH(64) - Suc 0) (uint t)" by (rule sint_uint)
  also have "\<dots> = signed_take_bit 63 (uint t)" by simp
  also have "\<dots> = uint t"
    using l u by (rule signed_take_bit_int_eq_self)
  finally show ?thesis .
qed

lemma ssize_of_size_small:
  assumes "unat count < 2 ^ 63"
  shows "ssize_of_size count = Inr (unat count)"
proof -
  have "sint count = uint count" by (rule sint_small [OF assms])
  then show ?thesis by (simp add: ssize_of_size_def result_of_def)
qed

lemma ssize_of_size_large: "ssize_of_size (2 ^ 63) = Inl (ECODE (- (2 ^ 63)))"
  by (simp add: ssize_of_size_def result_of_def)

lemma int_of_ssize_errno:
  "int_of_ssize (Inl EBUSY) = Inl EBUSY" "int_of_ssize (Inl EINVAL) = Inl EINVAL"
  "int_of_ssize (Inl ENOMEM) = Inl ENOMEM"
  by (simp_all add: int_of_ssize_def result_of_def)

lemma gov_update_sample_delay_0:
  "policy_dbs_mem s pd = Some pdi \<Longrightarrow>
    gov_update_sample_delay pd 0 s =
      Some (emit [Sample_delay_write pd 0]
        (s\<lparr>policy_dbs_mem := (policy_dbs_mem s)(pd \<mapsto> pdi\<lparr>sample_delay_ns := 0\<rparr>)\<rparr>))"
  by (simp add: gov_update_sample_delay_def)

lemma store_sampling_rate_loop_result:
  "set pds \<subseteq> dom (policy_dbs_mem s) \<Longrightarrow>
    store_sampling_rate_loop pds s =
      Some (s\<lparr>policy_dbs_mem := zero_delays pds (policy_dbs_mem s),
              trace := trace s @ delay_events pds\<rparr>)"
proof (induction pds arbitrary: s)
  case Nil
  then show ?case by (simp add: zero_delays_def delay_events_def)
next
  case (Cons pd pds)
  then obtain pdi where pdi: "policy_dbs_mem s pd = Some pdi" by auto
  define s1 where "s1 = emit [Mutex_unlock (Timer_mutex pd)] (emit [Sample_delay_write pd 0]
        ((emit [Mutex_lock (Timer_mutex pd)] s)\<lparr>policy_dbs_mem := (policy_dbs_mem s)(pd \<mapsto> pdi\<lparr>sample_delay_ns := 0\<rparr>)\<rparr>))"
  have step: "store_sampling_rate_loop (pd # pds) s = store_sampling_rate_loop pds s1"
    using pdi by (simp add: s1_def gov_update_sample_delay_def emit_def)
  have dom: "set pds \<subseteq> dom (policy_dbs_mem s1)"
    using Cons.prems by (auto simp: s1_def emit_def)
  have "s1\<lparr>policy_dbs_mem := zero_delays pds (policy_dbs_mem s1), trace := trace s1 @ delay_events pds\<rparr>
    = s\<lparr>policy_dbs_mem := zero_delays (pd # pds) (policy_dbs_mem s),
              trace := trace s @ delay_events (pd # pds)\<rparr>"
    using pdi by (auto simp: s1_def emit_def zero_delays_def delay_events_def fun_eq_iff)
  with Cons.IH [OF dom] step show ?case by simp
qed

lemma dbs_update_util_handler_queues:
  assumes "cdbs_policy_dbs (cpu_dbs s cpu) = Some pd" "policy_dbs_mem s pd = Some pdi"
    "\<not> work_in_progress pdi"
    "\<not> sint (time - last_sample_time pdi) < sint (sample_delay_ns pdi)"
    "\<not> is_shared pdi \<or> work_count pdi \<noteq> 1"
  shows "dbs_update_util_handler cpu time s =
    Some (emit [Irq_work_queue pd] (s\<lparr>policy_dbs_mem := (policy_dbs_mem s)
      (pd \<mapsto> (if is_shared pdi then pdi\<lparr>work_count := work_count pdi + 1\<rparr> else pdi)
         \<lparr>last_sample_time := time, work_in_progress := True\<rparr>)\<rparr>))"
  using assms by (auto simp: dbs_update_util_handler_def Let_def)

lemma dbs_update_util_handler_returns:
  assumes "cdbs_policy_dbs (cpu_dbs s cpu) = Some pd" "policy_dbs_mem s pd = Some pdi"
    "work_in_progress pdi \<or> sint (time - last_sample_time pdi) < sint (sample_delay_ns pdi)
      \<or> (is_shared pdi \<and> work_count pdi = 1)"
  shows "dbs_update_util_handler cpu time s = Some s"
  using assms by (auto simp: dbs_update_util_handler_def Let_def)

text \<open>
  Claim C4. When the input parses as one unsigned integer \<open>rate\<close>, and every domain
  registered with the tunables is an allocated object, \<^verbatim>\<open>store_sampling_rate\<close> returns
  \<open>count\<close> as the \<^verbatim>\<open>ssize_t\<close> it is converted to (\<open>count\<close> itself when it is below
  \<open>2 ^ 63\<close>); the stored sampling rate becomes \<open>max rate min_sampling_rate\<close>; the sample delay
  of every registered domain becomes 0, each write between the lock and the unlock of that
  domain's timer mutex; nothing else changes. So the decrease takes effect at once: in
  the resulting state, for every registered domain with no work in progress, the next call
  of the utilization update handler at any time not before the last sample hands the
  sample to the irq work (for a shared domain provided the work counter is free),
  whatever the deadline was before.
\<close>

theorem store_sampling_rate_forces_resample:
  assumes parse: "sscanf_u k buf = Some rate"
    and dbs: "dbs_data_mem s d = Some dbs"
    and alloc: "set (policy_list (attr_set dbs)) \<subseteq> dom (policy_dbs_mem s)"
  shows "\<exists>s'. store_sampling_rate k d buf count s = Some (ssize_of_size count, s')
    \<and> (unat count < 2 ^ 63 \<longrightarrow> ssize_of_size count = Inr (unat count))
    \<and> dbs_data_mem s' = (dbs_data_mem s)(d \<mapsto> dbs\<lparr>sampling_rate := max rate (min_sampling_rate dbs)\<rparr>)
    \<and> (\<forall>pd\<in>set (policy_list (attr_set dbs)). \<exists>pdi. policy_dbs_mem s pd = Some pdi
          \<and> policy_dbs_mem s' pd = Some (pdi\<lparr>sample_delay_ns := 0\<rparr>))
    \<and> (\<forall>pd. pd \<notin> set (policy_list (attr_set dbs)) \<longrightarrow> policy_dbs_mem s' pd = policy_dbs_mem s pd)
    \<and> trace s' = trace s @ concat (map (\<lambda>pd.
          [Mutex_lock (Timer_mutex pd), Sample_delay_write pd 0, Mutex_unlock (Timer_mutex pd)])
          (policy_list (attr_set dbs)))
    \<and> cpu_dbs s' = cpu_dbs s \<and> policy_mem s' = policy_mem s \<and> gdbs_data s' = gdbs_data s
    \<and> (\<forall>pd\<in>set (policy_list (attr_set dbs)). \<forall>pdi cpu time.
          policy_dbs_mem s pd = Some pdi \<and> cdbs_policy_dbs (cpu_dbs s cpu) = Some pd
          \<and> \<not> work_in_progress pdi \<and> 0 \<le> sint (time - last_sample_time pdi)
          \<and> (is_shared pdi \<longrightarrow> work_count pdi \<noteq> 1) \<longrightarrow>
          (\<exists>s'' pdi''. dbs_update_util_handler cpu time s' = Some s''
            \<and> trace s'' = trace s' @ [Irq_work_queue pd]
            \<and> policy_dbs_mem s'' pd = Some pdi''
            \<and> work_in_progress pdi'' \<and> last_sample_time pdi'' = time))"
proof -
  define dbs1 where "dbs1 = dbs\<lparr>sampling_rate := max rate (min_sampling_rate dbs)\<rparr>"
  define s1 where "s1 = s\<lparr>dbs_data_mem := (dbs_data_mem s)(d \<mapsto> dbs1)\<rparr>"
  define pds where "pds = policy_list (attr_set dbs)"
  define s' where "s' = s1\<lparr>policy_dbs_mem := zero_delays pds (policy_dbs_mem s1),
              trace := trace s1 @ delay_events pds\<rparr>"
  have "set pds \<subseteq> dom (policy_dbs_mem s1)" using alloc by (simp add: s1_def pds_def)
  then have loop: "store_sampling_rate_loop pds s1 = Some s'"
    unfolding s'_def by (rule store_sampling_rate_loop_result)
  have ret: "unat count < 2 ^ 63 \<longrightarrow> ssize_of_size count = Inr (unat count)"
    by (simp add: ssize_of_size_small)
  have run: "store_sampling_rate k d buf count s = Some (ssize_of_size count, s')"
    using parse dbs loop by (simp add: store_sampling_rate_def dbs1_def [symmetric] s1_def [symmetric] pds_def)
  have mem: "policy_dbs_mem s' = zero_delays pds (policy_dbs_mem s)" by (simp add: s'_def s1_def)
  have reg: "\<exists>pdi. policy_dbs_mem s pd = Some pdi \<and> policy_dbs_mem s' pd = Some (pdi\<lparr>sample_delay_ns := 0\<rparr>)"
    if "pd \<in> set pds" for pd
  proof -
    from that alloc obtain pdi where "policy_dbs_mem s pd = Some pdi" by (auto simp: pds_def)
    with that show ?thesis by (simp add: mem zero_delays_def)
  qed
  have other: "policy_dbs_mem s' pd = policy_dbs_mem s pd" if "pd \<notin> set pds" for pd
    using that by (simp add: mem zero_delays_def)
  have tr: "trace s' = trace s @ delay_events pds" by (simp add: s'_def s1_def)
  have frame: "cpu_dbs s' = cpu_dbs s" "policy_mem s' = policy_mem s" "gdbs_data s' = gdbs_data s"
    "dbs_data_mem s' = (dbs_data_mem s)(d \<mapsto> dbs1)"
    by (simp_all add: s'_def s1_def)
  have effect: "\<exists>s'' pdi''. dbs_update_util_handler cpu time s' = Some s''
            \<and> trace s'' = trace s' @ [Irq_work_queue pd]
            \<and> policy_dbs_mem s'' pd = Some pdi''
            \<and> work_in_progress pdi'' \<and> last_sample_time pdi'' = time"
    if "pd \<in> set pds" "policy_dbs_mem s pd = Some pdi" "cdbs_policy_dbs (cpu_dbs s cpu) = Some pd"
      "\<not> work_in_progress pdi" "0 \<le> sint (time - last_sample_time pdi)"
      "is_shared pdi \<longrightarrow> work_count pdi \<noteq> 1" for pd pdi cpu time
  proof -
    define pdi' where "pdi' = pdi\<lparr>sample_delay_ns := 0\<rparr>"
    have a: "cdbs_policy_dbs (cpu_dbs s' cpu) = Some pd" using that(3) by (simp add: frame)
    have b: "policy_dbs_mem s' pd = Some pdi'" using that(1,2) by (simp add: mem zero_delays_def pdi'_def)
    have c: "\<not> work_in_progress pdi'" using that(4) by (simp add: pdi'_def)
    have e: "\<not> sint (time - last_sample_time pdi') < sint (sample_delay_ns pdi')"
      using that(5) by (simp add: pdi'_def)
    have f: "\<not> is_shared pdi' \<or> work_count pdi' \<noteq> 1" using that(6) by (simp add: pdi'_def)
    show ?thesis
      unfolding dbs_update_util_handler_queues [OF a b c e f] by (simp add: emit_def)
  qed
  show ?thesis
    using run ret reg other tr frame effect
    unfolding pds_def [symmetric] dbs1_def [symmetric] delay_events_def [symmetric]
    by blast
qed

theorem store_sampling_rate_forces_resample_witness:
  "sscanf_u kernel0 ''5000'' = Some 5000 \<and> dbs_data_mem state0 20 = Some dbs_data0
    \<and> dbs_update_util_handler 0 10000000 state0 = Some state0
    \<and> (\<exists>s'. store_sampling_rate kernel0 20 ''5000'' 5 state0 = Some (Inr 5, s')
          \<and> dbs_data_mem s' 20 = Some (dbs_data0\<lparr>sampling_rate := 10000\<rparr>)
          \<and> policy_dbs_mem s' 10 = Some (policy_dbs0\<lparr>sample_delay_ns := 0\<rparr>)
          \<and> trace s' = [Mutex_lock (Timer_mutex 10), Sample_delay_write 10 0,
                Mutex_unlock (Timer_mutex 10)]
          \<and> (\<exists>s''. dbs_update_util_handler 0 10000000 s' = Some s''
                \<and> trace s'' = trace s' @ [Irq_work_queue 10]))"
proof -
  have parse: "sscanf_u kernel0 ''5000'' = Some 5000" by (simp add: kernel0_def)
  have dbs: "dbs_data_mem state0 20 = Some dbs_data0" by (simp add: state0_def)
  have alloc: "set (policy_list (attr_set dbs_data0)) \<subseteq> dom (policy_dbs_mem state0)"
    by (simp add: dbs_data0_def state0_def)
  have early: "dbs_update_util_handler 0 10000000 state0 = Some state0"
    by (simp add: dbs_update_util_handler_def state0_def cdbs0_def policy_dbs0_def)
  have run: "\<exists>s'. store_sampling_rate kernel0 20 ''5000'' 5 state0 = Some (Inr 5, s')
          \<and> dbs_data_mem s' 20 = Some (dbs_data0\<lparr>sampling_rate := 10000\<rparr>)
          \<and> policy_dbs_mem s' 10 = Some (policy_dbs0\<lparr>sample_delay_ns := 0\<rparr>)
          \<and> trace s' = [Mutex_lock (Timer_mutex 10), Sample_delay_write 10 0,
                Mutex_unlock (Timer_mutex 10)]
          \<and> (\<exists>s''. dbs_update_util_handler 0 10000000 s' = Some s''
                \<and> trace s'' = trace s' @ [Irq_work_queue 10])"
    using store_sampling_rate_forces_resample [OF parse dbs alloc, of 5]
    by (simp add: store_sampling_rate_def ssize_of_size_def result_of_def
        gov_update_sample_delay_def emit_def
        dbs_update_util_handler_def kernel0_def state0_def dbs_data0_def policy_dbs0_def cdbs0_def)
  from parse dbs early run show ?thesis by simp
qed

text \<open>
  Claim C7. When the input does not parse as one unsigned integer,
  \<^verbatim>\<open>store_sampling_rate\<close> returns \<^verbatim>\<open>-EINVAL\<close> and the state is exactly the state before the
  call: the stored sampling rate, the tunables and the sample delay of every domain are
  untouched. Called through \<^verbatim>\<open>governor_store\<close> on tunables in use, the result is the same
  error and only the lock and unlock of the update lock are recorded.
\<close>

theorem store_sampling_rate_rejects_malformed:
  assumes "sscanf_u k buf = None"
  shows "store_sampling_rate k d buf count s = Some (Inl EINVAL, s)
    \<and> (\<forall>dbs. dbs_data_mem s d = Some dbs \<and> usage_count (attr_set dbs) \<noteq> 0 \<longrightarrow>
        (\<exists>s'. governor_store (store_sampling_rate k) d buf count s = Some (Inl EINVAL, s')
          \<and> s' = s\<lparr>trace := trace s @ [Mutex_lock (Update_lock d), Mutex_unlock (Update_lock d)]\<rparr>))"
  using assms by (simp add: store_sampling_rate_def governor_store_def emit_def int_of_ssize_errno)

theorem store_sampling_rate_rejects_malformed_witness:
  "sscanf_u kernel0 ''fast'' = None
    \<and> store_sampling_rate kernel0 20 ''fast'' 5 state0 = Some (Inl EINVAL, state0)
    \<and> governor_store (store_sampling_rate kernel0) 20 ''fast'' 5 state0 =
        Some (Inl EINVAL, state0\<lparr>trace := [Mutex_lock (Update_lock 20), Mutex_unlock (Update_lock 20)]\<rparr>)"
proof -
  have parse: "sscanf_u kernel0 ''fast'' = None" by (simp add: kernel0_def)
  have dbs: "dbs_data_mem state0 20 = Some dbs_data0 \<and> usage_count (attr_set dbs_data0) \<noteq> 0"
    by (simp add: state0_def dbs_data0_def)
  have tr: "trace state0 = []" by (simp add: state0_def)
  from store_sampling_rate_rejects_malformed [OF parse, of 20 5 state0] dbs parse tr
  show ?thesis by auto
qed


subsection \<open>Attribute writes\<close>

text \<open>
  Claim C8. A write dispatched by \<^verbatim>\<open>governor_store\<close> to tunables whose usage count is zero
  returns \<^verbatim>\<open>-EBUSY\<close>, and the store callback of the attribute is not called: whatever the
  callback \<open>store\<close> is, the resulting state is the state before the call, with the lock and
  the unlock of the update lock recorded and nothing in between. When the usage count is
  not zero the callback runs in the state in which the update lock has been taken, and
  the lock is released after it.
\<close>

theorem governor_store_unused_busy:
  assumes "dbs_data_mem s d = Some dbs"
  shows "(usage_count (attr_set dbs) = 0 \<longrightarrow>
      governor_store store d buf count s =
        Some (Inl EBUSY, s\<lparr>trace := trace s @ [Mutex_lock (Update_lock d), Mutex_unlock (Update_lock d)]\<rparr>))
    \<and> (\<forall>r s1. usage_count (attr_set dbs) \<noteq> 0
          \<and> store d buf count (s\<lparr>trace := trace s @ [Mutex_lock (Update_lock d)]\<rparr>) = Some (r, s1) \<longrightarrow>
        governor_store store d buf count s =
          Some (int_of_ssize r, s1\<lparr>trace := trace s1 @ [Mutex_unlock (Update_lock d)]\<rparr>))"
  using assms by (simp add: governor_store_def emit_def)

theorem governor_store_unused_busy_witness:
  "dbs_data_mem state_unused 20 = Some (dbs_data0\<lparr>attr_set := \<lparr>policy_list = [], usage_count = 0\<rparr>\<rparr>)
    \<and> governor_store (store_sampling_rate kernel0) 20 ''5000'' 5 state_unused =
        Some (Inl EBUSY, state_unused\<lparr>trace := [Mutex_lock (Update_lock 20), Mutex_unlock (Update_lock 20)]\<rparr>)
    \<and> dbs_data_mem state0 20 = Some dbs_data0
    \<and> (\<exists>s'. governor_store (store_sampling_rate kernel0) 20 ''5000'' 5 state0 = Some (Inr 5, s')
          \<and> trace s' = [Mutex_lock (Update_lock 20), Mutex_lock (Timer_mutex 10),
                Sample_delay_write 10 0, Mutex_unlock (Timer_mutex 10), Mutex_unlock (Update_lock 20)])"
proof -
  have a: "dbs_data_mem state_unused 20 =
      Some (dbs_data0\<lparr>attr_set := \<lparr>policy_list = [], usage_count = 0\<rparr>\<rparr>)"
    by (simp add: state_unused_def)
  have b: "dbs_data_mem state0 20 = Some dbs_data0" by (simp add: state0_def)
  have tr: "trace state_unused = []" by (simp add: state_unused_def state0_def)
  have busy: "governor_store (store_sampling_rate kernel0) 20 ''5000'' 5 state_unused =
        Some (Inl EBUSY, state_unused\<lparr>trace := [Mutex_lock (Update_lock 20), Mutex_unlock (Update_lock 20)]\<rparr>)"
    using governor_store_unused_busy [OF a, of "store_sampling_rate kernel0" "''5000''" 5] tr
    by simp
  have used: "\<exists>s'. governor_store (store_sampling_rate kernel0) 20 ''5000'' 5 state0 = Some (Inr 5, s')
          \<and> trace s' = [Mutex_lock (Update_lock 20), Mutex_lock (Timer_mutex 10),
                Sample_delay_write 10 0, Mutex_unlock (Timer_mutex 10), Mutex_unlock (Update_lock 20)]"
    using governor_store_unused_busy [OF b, of "store_sampling_rate kernel0" "''5000''" 5]
    by (simp add: governor_store_def store_sampling_rate_def gov_update_sample_delay_def emit_def
        int_of_ssize_def ssize_of_size_def result_of_def kernel0_def state0_def dbs_data0_def
        policy_dbs0_def)
  from a b busy used show ?thesis by simp
qed

subsection \<open>The limits transition\<close>

lemma cpufreq_governor_limits_eq:
  assumes "policy_mem s p = Some policy" "governor_data policy = Some pd"
    "policy_dbs_mem s pd = Some pdi"
  shows "cpufreq_governor_limits k p s =
    Some (Inr (),
      (if pmax policy < cur policy then
         s\<lparr>policy_mem := (policy_mem s)(p \<mapsto> driver_target k policy (pmax policy) CPUFREQ_RELATION_H),
           policy_dbs_mem := (policy_dbs_mem s)(pd \<mapsto> pdi\<lparr>sample_delay_ns := 0\<rparr>),
           trace := trace s @ [Mutex_lock (Timer_mutex pd),
             Driver_target p (pmax policy) CPUFREQ_RELATION_H,
             Sample_delay_write pd 0, Mutex_unlock (Timer_mutex pd)]\<rparr>
       else if cur policy < pmin policy then
         s\<lparr>policy_mem := (policy_mem s)(p \<mapsto> driver_target k policy (pmin policy) CPUFREQ_RELATION_L),
           policy_dbs_mem := (policy_dbs_mem s)(pd \<mapsto> pdi\<lparr>sample_delay_ns := 0\<rparr>),
           trace := trace s @ [Mutex_lock (Timer_mutex pd),
             Driver_target p (pmin policy) CPUFREQ_RELATION_L,
             Sample_delay_write pd 0, Mutex_unlock (Timer_mutex pd)]\<rparr>
       else
         s\<lparr>policy_dbs_mem := (policy_dbs_mem s)(pd \<mapsto> pdi\<lparr>sample_delay_ns := 0\<rparr>),
           trace := trace s @ [Mutex_lock (Timer_mutex pd),
             Sample_delay_write pd 0, Mutex_unlock (Timer_mutex pd)]\<rparr>))"
  using assms
  by (simp add: cpufreq_governor_limits_def cpufreq_driver_target_def gov_update_sample_delay_def
      emit_def)

text \<open>
  Claim C5. On an initialized domain \<^verbatim>\<open>cpufreq_governor_limits\<close> returns 0, and what it
  does is, in this order: it takes the timer mutex of the domain; if \<^verbatim>\<open>policy->max\<close> is
  below the current frequency it calls the frequency-change driver with target
  \<^verbatim>\<open>policy->max\<close> and relation \<^verbatim>\<open>CPUFREQ_RELATION_H\<close> (at most), if instead \<^verbatim>\<open>policy->min\<close>
  is above the current frequency it calls the driver with target \<^verbatim>\<open>policy->min\<close> and
  relation \<^verbatim>\<open>CPUFREQ_RELATION_L\<close> (at least); it sets the sample delay of the domain to 0;
  it releases the timer mutex.
\<close>

theorem cpufreq_governor_limits_clamps:
  assumes "policy_mem s p = Some policy" "governor_data policy = Some pd"
    "policy_dbs_mem s pd = Some pdi"
  shows "\<exists>s'. cpufreq_governor_limits k p s = Some (Inr (), s')
    \<and> trace s' = trace s @ [Mutex_lock (Timer_mutex pd)]
        @ (if pmax policy < cur policy then [Driver_target p (pmax policy) CPUFREQ_RELATION_H]
           else if pmin policy > cur policy then [Driver_target p (pmin policy) CPUFREQ_RELATION_L]
           else [])
        @ [Sample_delay_write pd 0, Mutex_unlock (Timer_mutex pd)]
    \<and> policy_dbs_mem s' = (policy_dbs_mem s)(pd \<mapsto> pdi\<lparr>sample_delay_ns := 0\<rparr>)"
  unfolding cpufreq_governor_limits_eq [OF assms] by simp

theorem cpufreq_governor_limits_clamps_witness:
  "policy_mem state_high 1 = Some (policy0\<lparr>cur := 3000\<rparr>)
    \<and> (\<exists>s'. cpufreq_governor_limits kernel0 1 state_high = Some (Inr (), s')
          \<and> trace s' = [Mutex_lock (Timer_mutex 10), Driver_target 1 2000 CPUFREQ_RELATION_H,
                Sample_delay_write 10 0, Mutex_unlock (Timer_mutex 10)]
          \<and> policy_dbs_mem s' 10 = Some (policy_dbs0\<lparr>sample_delay_ns := 0\<rparr>))
    \<and> policy_mem state_low 1 = Some (policy0\<lparr>cur := 100\<rparr>)
    \<and> (\<exists>s'. cpufreq_governor_limits kernel0 1 state_low = Some (Inr (), s')
          \<and> trace s' = [Mutex_lock (Timer_mutex 10), Driver_target 1 500 CPUFREQ_RELATION_L,
                Sample_delay_write 10 0, Mutex_unlock (Timer_mutex 10)]
          \<and> policy_dbs_mem s' 10 = Some (policy_dbs0\<lparr>sample_delay_ns := 0\<rparr>))"
proof -
  have h: "policy_mem state_high 1 = Some (policy0\<lparr>cur := 3000\<rparr>)"
    "governor_data (policy0\<lparr>cur := 3000\<rparr>) = Some 10" "policy_dbs_mem state_high 10 = Some policy_dbs0"
    by (simp_all add: state_high_def state0_def policy0_def)
  have l: "policy_mem state_low 1 = Some (policy0\<lparr>cur := 100\<rparr>)"
    "governor_data (policy0\<lparr>cur := 100\<rparr>) = Some 10" "policy_dbs_mem state_low 10 = Some policy_dbs0"
    by (simp_all add: state_low_def state0_def policy0_def)
  have th: "trace state_high = []" and tl: "trace state_low = []"
    and mh: "policy_dbs_mem state_high = [10 \<mapsto> policy_dbs0]"
    and ml: "policy_dbs_mem state_low = [10 \<mapsto> policy_dbs0]"
    by (simp_all add: state_high_def state_low_def state0_def)
  from cpufreq_governor_limits_clamps [OF h, of kernel0] cpufreq_governor_limits_clamps [OF l, of kernel0]
    h(1) l(1) th tl mh ml
  show ?thesis by (auto simp: policy0_def)
qed

text \<open>
  Claim C10. When the current frequency lies within \<^verbatim>\<open>[policy->min, policy->max]\<close>,
  \<^verbatim>\<open>cpufreq_governor_limits\<close> does not call the frequency-change driver: the state after the
  call is the state before it with the sample delay of the domain set to 0, and the record
  holds the lock, the write of the delay and the unlock only. In every call the driver is
  called at most once.
\<close>

theorem cpufreq_governor_limits_in_bounds:
  assumes "policy_mem s p = Some policy" "governor_data policy = Some pd"
    "policy_dbs_mem s pd = Some pdi"
  shows "(pmin policy \<le> cur policy \<and> cur policy \<le> pmax policy \<longrightarrow>
      cpufreq_governor_limits k p s =
        Some (Inr (), s\<lparr>policy_dbs_mem := (policy_dbs_mem s)(pd \<mapsto> pdi\<lparr>sample_delay_ns := 0\<rparr>),
          trace := trace s @ [Mutex_lock (Timer_mutex pd), Sample_delay_write pd 0,
            Mutex_unlock (Timer_mutex pd)]\<rparr>))
    \<and> (\<exists>s' es. cpufreq_governor_limits k p s = Some (Inr (), s') \<and> trace s' = trace s @ es
          \<and> length (filter is_driver_target es) \<le> 1)"
  unfolding cpufreq_governor_limits_eq [OF assms] by (auto simp: is_driver_target_def)

theorem cpufreq_governor_limits_in_bounds_witness:
  "policy_mem state0 1 = Some policy0 \<and> pmin policy0 \<le> cur policy0 \<and> cur policy0 \<le> pmax policy0
    \<and> cpufreq_governor_limits kernel0 1 state0 =
        Some (Inr (), state0\<lparr>policy_dbs_mem := [10 \<mapsto> policy_dbs0\<lparr>sample_delay_ns := 0\<rparr>],
          trace := [Mutex_lock (Timer_mutex 10), Sample_delay_write 10 0,
            Mutex_unlock (Timer_mutex 10)]\<rparr>)"
proof -
  have m: "policy_mem state0 1 = Some policy0" "governor_data policy0 = Some 10"
    "policy_dbs_mem state0 10 = Some policy_dbs0"
    by (simp_all add: state0_def policy0_def)
  have b: "pmin policy0 \<le> cur policy0 \<and> cur policy0 \<le> pmax policy0" by (simp add: policy0_def)
  have t: "trace state0 = []" and pm: "policy_dbs_mem state0 = [10 \<mapsto> policy_dbs0]"
    by (simp_all add: state0_def)
  from cpufreq_governor_limits_in_bounds [OF m, of kernel0] m(1) b t pm show ?thesis by simp
qed

subsection \<open>Transitions in the wrong state\<close>

text \<open>
  Claim C6. \<^verbatim>\<open>CPUFREQ_GOV_POLICY_INIT\<close> on a policy whose governor data is not null returns
  \<^verbatim>\<open>-EBUSY\<close> (the error the specification calls AlreadyInitialized) and the state,
  allocations included, is the state before the call. Every other event (start, stop,
  limits, exit, or any other number) on a policy whose governor data is null returns
  \<^verbatim>\<open>-EINVAL\<close> (the error the specification calls InvalidState), again without any change.
\<close>

theorem cpufreq_governor_dbs_state_errors:
  assumes "policy_mem s p = Some policy"
  shows "(governor_data policy \<noteq> None \<longrightarrow>
      cpufreq_governor_dbs k p CPUFREQ_GOV_POLICY_INIT s = Some (Inl EBUSY, s)
      \<and> cpufreq_governor_init k p s = Some (Inl EBUSY, s))
    \<and> (governor_data policy = None \<and> event \<noteq> CPUFREQ_GOV_POLICY_INIT \<longrightarrow>
      cpufreq_governor_dbs k p event s = Some (Inl EINVAL, s))"
  using assms by (simp add: cpufreq_governor_dbs_def cpufreq_governor_init_def)

theorem cpufreq_governor_dbs_state_errors_witness:
  "policy_mem state0 1 = Some policy0 \<and> governor_data policy0 = Some 10
    \<and> cpufreq_governor_dbs kernel0 1 CPUFREQ_GOV_POLICY_INIT state0 = Some (Inl EBUSY, state0)
    \<and> policy_mem state_uninit 1 = Some (policy0\<lparr>governor_data := None\<rparr>)
    \<and> cpufreq_governor_dbs kernel0 1 CPUFREQ_GOV_START state_uninit = Some (Inl EINVAL, state_uninit)
    \<and> cpufreq_governor_dbs kernel0 1 CPUFREQ_GOV_STOP state_uninit = Some (Inl EINVAL, state_uninit)
    \<and> cpufreq_governor_dbs kernel0 1 CPUFREQ_GOV_LIMITS state_uninit = Some (Inl EINVAL, state_uninit)
    \<and> cpufreq_governor_dbs kernel0 1 CPUFREQ_GOV_POLICY_EXIT state_uninit = Some (Inl EINVAL, state_uninit)"
proof -
  have a: "policy_mem state0 1 = Some policy0" by (simp add: state0_def)
  have b: "policy_mem state_uninit 1 = Some (policy0\<lparr>governor_data := None\<rparr>)"
    by (simp add: state_uninit_def)
  have g: "governor_data policy0 = Some 10" by (simp add: policy0_def)
  have ev: "CPUFREQ_GOV_START \<noteq> CPUFREQ_GOV_POLICY_INIT" "CPUFREQ_GOV_STOP \<noteq> CPUFREQ_GOV_POLICY_INIT"
    "CPUFREQ_GOV_LIMITS \<noteq> CPUFREQ_GOV_POLICY_INIT" "CPUFREQ_GOV_POLICY_EXIT \<noteq> CPUFREQ_GOV_POLICY_INIT"
    by (simp_all add: CPUFREQ_GOV_START_def CPUFREQ_GOV_STOP_def CPUFREQ_GOV_LIMITS_def
        CPUFREQ_GOV_POLICY_EXIT_def CPUFREQ_GOV_POLICY_INIT_def)
  from cpufreq_governor_dbs_state_errors [OF a, of kernel0]
    cpufreq_governor_dbs_state_errors [OF b, of kernel0 CPUFREQ_GOV_START]
    cpufreq_governor_dbs_state_errors [OF b, of kernel0 CPUFREQ_GOV_STOP]
    cpufreq_governor_dbs_state_errors [OF b, of kernel0 CPUFREQ_GOV_LIMITS]
    cpufreq_governor_dbs_state_errors [OF b, of kernel0 CPUFREQ_GOV_POLICY_EXIT]
    a b g ev
  show ?thesis by simp
qed


subsection \<open>The start transition\<close>

text \<open>
  The handler compares the elapsed time and the sample delay as signed 64-bit numbers. For
  values below \<open>2 ^ 63\<close> this is the comparison of the unsigned values, and a sample delay
  written by \<^verbatim>\<open>gov_update_sample_delay\<close> is always below \<open>2 ^ 63\<close>.
\<close>

lemma signed_compare_unsigned:
  fixes t d :: u64
  assumes "unat t < 2 ^ 63" "unat d < 2 ^ 63"
  shows "(sint t < sint d) = (t < d)"
  by (simp only: sint_small [OF assms(1)] sint_small [OF assms(2)] word_less_alt)

lemma sample_delay_small:
  fixes us :: u32
  shows "unat ((ucast us :: u64) * 1000) = unat us * 1000 \<and> unat ((ucast us :: u64) * 1000) < 2 ^ 63"
proof -
  have b: "unat us < 2 ^ 32" using unsigned_less [of us, where ?'a = nat] by simp
  have "unat ((ucast us :: u64) * 1000) = (unat (ucast us :: u64) * unat (1000 :: u64)) mod 2 ^ LENGTH(64)"
    by (rule unat_word_ariths)
  also have "unat (ucast us :: u64) = unat us"
    using b by (simp add: unsigned_ucast_eq take_bit_nat_eq_self)
  also have "(unat us * unat (1000 :: u64)) mod 2 ^ LENGTH(64) = unat us * 1000"
    using b by simp
  finally have e: "unat ((ucast us :: u64) * 1000) = unat us * 1000" .
  with b show ?thesis by simp
qed

lemma fold_cpu_update:
  "distinct js \<Longrightarrow>
    fold (\<lambda>j cd. cd(j := f j (cd j))) js cd0 = (\<lambda>j. if j \<in> set js then f j (cd0 j) else cd0 j)"
proof (induction js arbitrary: cd0)
  case Nil
  then show ?case by simp
next
  case (Cons a js)
  then have a: "a \<notin> set js" and d: "distinct js" by simp_all
  have "fold (\<lambda>j cd. cd(j := f j (cd j))) (a # js) cd0 =
      fold (\<lambda>j cd. cd(j := f j (cd j))) js (cd0(a := f a (cd0 a)))"
    by simp
  also have "\<dots> = (\<lambda>j. if j \<in> set js then f j ((cd0(a := f a (cd0 a))) j)
      else (cd0(a := f a (cd0 a))) j)"
    by (rule Cons.IH [OF d])
  also have "\<dots> = (\<lambda>j. if j \<in> set (a # js) then f j (cd0 j) else cd0 j)"
    using a by (auto simp: fun_eq_iff)
  finally show ?case .
qed

lemma start_cpu_fields:
  "prev_load (start_cpu k ig io j c) = 0"
  "prev_cpu_wall (start_cpu k ig io j c) = snd (get_cpu_idle_time k j io)"
  "prev_cpu_idle (start_cpu k ig io j c) = fst (get_cpu_idle_time k j io)"
  "cdbs_policy_dbs (start_cpu k ig io j c) = cdbs_policy_dbs c"
  by (simp_all add: start_cpu_def Let_def split: prod.splits)

lemma cpufreq_governor_start_result:
  assumes mem: "policy_mem s p = Some policy" "governor_data policy = Some pd"
    "policy_dbs_mem s pd = Some pdi" "pd_dbs_data pdi = Some d" "dbs_data_mem s d = Some dbs"
    and cur: "cur policy \<noteq> 0" and bp: "pd_policy pdi = Some p"
  shows "\<exists>s'. cpufreq_governor_start k p s = Some (Inr (), s')
    \<and> policy_dbs_mem s' = (policy_dbs_mem s)(pd \<mapsto> pdi\<lparr>is_shared := policy_is_shared policy,
          rate_mult := 1, sample_delay_ns := ucast (sampling_rate dbs) * 1000, last_sample_time := 0\<rparr>)
    \<and> cpu_dbs s' = (\<lambda>j. if j \<in> set (cpus policy)
          then start_cpu k (ignore_nice_load dbs) (io_is_busy dbs) j (cpu_dbs s j) else cpu_dbs s j)
    \<and> policy_mem s' = policy_mem s \<and> dbs_data_mem s' = dbs_data_mem s \<and> gdbs_data s' = gdbs_data s
    \<and> trace s' = trace s @ [Gov_start p, Sample_delay_write pd (ucast (sampling_rate dbs) * 1000)]
        @ map (\<lambda>cpu. Set_update_util_data cpu True) (for_each_cpu (cpus policy))"
  using mem cur bp
  by (simp add: cpufreq_governor_start_def gov_set_update_util_def gov_update_sample_delay_def
      emit_def fold_cpu_update Let_def cong: if_cong)

text \<open>
  Claim C9. A start of an initialized domain whose current frequency is not 0 succeeds, and
  afterwards the last sample time of the domain is 0, its sample delay is the sampling rate
  (in nanoseconds), and the cached load of every processor of the policy is 0, its snapshot
  being the readings taken by the start. Therefore, whatever the last sample time was
  before the start, the first call of the utilization update handler (no work in progress,
  work counter free) depends on the time stamp and the sample delay only, compared as the
  code compares them, as signed 64-bit numbers: below the delay the handler returns and
  changes nothing, from the delay on it hands the sample to the irq work. And in the first
  \<^verbatim>\<open>dbs_update\<close> after the start, with any readings \<open>k2\<close>, the load of every processor that is
  considered is \<^verbatim>\<open>100 * (wall_time - idle_time) / wall_time\<close>, computed from the deltas against
  the readings of the start, never the cached load, however long the gap.
\<close>

theorem cpufreq_governor_start_fresh:
  fixes k :: kernel
  assumes mem: "policy_mem s p = Some policy" "governor_data policy = Some pd"
    "policy_dbs_mem s pd = Some pdi" "pd_dbs_data pdi = Some d" "dbs_data_mem s d = Some dbs"
    and cur: "cur policy \<noteq> 0" and bp: "pd_policy pdi = Some p"
  defines "ig \<equiv> ignore_nice_load dbs" and "io \<equiv> io_is_busy dbs"
    and "delay \<equiv> (ucast (sampling_rate dbs) :: u64) * 1000"
  shows "\<exists>s' pdi'. cpufreq_governor_start k p s = Some (Inr (), s')
    \<and> policy_dbs_mem s' pd = Some pdi' \<and> last_sample_time pdi' = 0 \<and> sample_delay_ns pdi' = delay
    \<and> (\<forall>j\<in>set (cpus policy). prev_load (cpu_dbs s' j) = 0
          \<and> prev_cpu_wall (cpu_dbs s' j) = snd (get_cpu_idle_time k j io)
          \<and> prev_cpu_idle (cpu_dbs s' j) = fst (get_cpu_idle_time k j io))
    \<and> (\<forall>cpu time. cdbs_policy_dbs (cpu_dbs s cpu) = Some pd \<and> \<not> work_in_progress pdi
          \<and> (policy_is_shared policy \<longrightarrow> work_count pdi \<noteq> 1) \<longrightarrow>
          (if sint time < sint delay then dbs_update_util_handler cpu time s' = Some s'
           else (\<exists>s'' pdi''. dbs_update_util_handler cpu time s' = Some s''
             \<and> trace s'' = trace s' @ [Irq_work_queue pd]
             \<and> policy_dbs_mem s'' pd = Some pdi''
             \<and> work_in_progress pdi'' \<and> last_sample_time pdi'' = time)))
    \<and> (\<forall>k2. \<forall>j\<in>set (cpus policy).
          wall_delta k2 io j (cpu_dbs s' j) \<noteq> 0
          \<and> \<not> wall_delta k2 io j (cpu_dbs s' j) < idle_delta k2 ig io j (cpu_dbs s' j) \<longrightarrow>
          (\<exists>load s''. dbs_update k2 p s' = Some (load, s'')
            \<and> fst (dbs_update_cpu k2 ig io (sampling_rate dbs) j (cpu_dbs s' j)) =
                Some (100 * (wall_delta k2 io j (cpu_dbs s' j) - idle_delta k2 ig io j (cpu_dbs s' j))
                        div wall_delta k2 io j (cpu_dbs s' j))
            \<and> prev_load (cpu_dbs s'' j) =
                100 * (wall_delta k2 io j (cpu_dbs s' j) - idle_delta k2 ig io j (cpu_dbs s' j))
                  div wall_delta k2 io j (cpu_dbs s' j)
            \<and> prev_load (cpu_dbs s'' j) \<le> load))"
proof -
  define pdi' where "pdi' = pdi\<lparr>is_shared := policy_is_shared policy,
          rate_mult := 1, sample_delay_ns := delay, last_sample_time := 0\<rparr>"
  from cpufreq_governor_start_result [OF mem cur bp, of k] obtain s' where
    run: "cpufreq_governor_start k p s = Some (Inr (), s')"
    and pm: "policy_dbs_mem s' = (policy_dbs_mem s)(pd \<mapsto> pdi')"
    and cd: "cpu_dbs s' = (\<lambda>j. if j \<in> set (cpus policy)
          then start_cpu k ig io j (cpu_dbs s j) else cpu_dbs s j)"
    and fr: "policy_mem s' = policy_mem s" "dbs_data_mem s' = dbs_data_mem s"
    unfolding pdi'_def delay_def ig_def io_def by blast
  have mem': "policy_mem s' p = Some policy" "governor_data policy = Some pd"
    "policy_dbs_mem s' pd = Some pdi'" "pd_dbs_data pdi' = Some d" "dbs_data_mem s' d = Some dbs"
    using mem by (simp_all add: fr pm pdi'_def)
  have f: "last_sample_time pdi' = 0" "sample_delay_ns pdi' = delay"
    "work_in_progress pdi' = work_in_progress pdi" "work_count pdi' = work_count pdi"
    "is_shared pdi' = policy_is_shared policy" "rate_mult pdi' = 1"
    by (simp_all add: pdi'_def)
  have cpus: "prev_load (cpu_dbs s' j) = 0
          \<and> prev_cpu_wall (cpu_dbs s' j) = snd (get_cpu_idle_time k j io)
          \<and> prev_cpu_idle (cpu_dbs s' j) = fst (get_cpu_idle_time k j io)"
    if "j \<in> set (cpus policy)" for j
    using that by (simp add: cd start_cpu_fields)
  have ptr: "cdbs_policy_dbs (cpu_dbs s' cpu) = cdbs_policy_dbs (cpu_dbs s cpu)" for cpu
    by (simp add: cd start_cpu_fields)
  have hook: "if sint time < sint delay then dbs_update_util_handler cpu time s' = Some s'
           else (\<exists>s'' pdi''. dbs_update_util_handler cpu time s' = Some s''
             \<and> trace s'' = trace s' @ [Irq_work_queue pd]
             \<and> policy_dbs_mem s'' pd = Some pdi''
             \<and> work_in_progress pdi'' \<and> last_sample_time pdi'' = time)"
    if h: "cdbs_policy_dbs (cpu_dbs s cpu) = Some pd" "\<not> work_in_progress pdi"
      "policy_is_shared policy \<longrightarrow> work_count pdi \<noteq> 1" for cpu time
  proof (cases "sint time < sint delay")
    case True
    have a: "cdbs_policy_dbs (cpu_dbs s' cpu) = Some pd" using h(1) by (simp add: ptr)
    have "work_in_progress pdi' \<or> sint (time - last_sample_time pdi') < sint (sample_delay_ns pdi')
      \<or> (is_shared pdi' \<and> work_count pdi' = 1)"
      using True by (simp add: f)
    from dbs_update_util_handler_returns [OF a mem'(3) this] True show ?thesis by simp
  next
    case False
    have a: "cdbs_policy_dbs (cpu_dbs s' cpu) = Some pd" using h(1) by (simp add: ptr)
    have c: "\<not> work_in_progress pdi'" using h(2) by (simp add: f)
    have e: "\<not> sint (time - last_sample_time pdi') < sint (sample_delay_ns pdi')"
      using False by (simp add: f)
    have g: "\<not> is_shared pdi' \<or> work_count pdi' \<noteq> 1" using h(3) by (simp add: f)
    show ?thesis
      unfolding dbs_update_util_handler_queues [OF a mem'(3) c e g] using False
      by (simp add: emit_def)
  qed
  have sample: "\<exists>load s''. dbs_update k2 p s' = Some (load, s'')
            \<and> fst (dbs_update_cpu k2 ig io (sampling_rate dbs) j (cpu_dbs s' j)) = Some (100 * (w2 - i2) div w2)
            \<and> prev_load (cpu_dbs s'' j) = 100 * (w2 - i2) div w2
            \<and> prev_load (cpu_dbs s'' j) \<le> load"
    if j: "j \<in> set (cpus policy)"
      and w2: "w2 = wall_delta k2 io j (cpu_dbs s' j)" and i2: "i2 = idle_delta k2 ig io j (cpu_dbs s' j)"
      and c2: "w2 \<noteq> 0" "\<not> w2 < i2" for k2 j w2 i2
  proof -
    from cpus [OF j] have zero: "prev_load (cpu_dbs s' j) = 0" by simp
    from dbs_update_result [OF mem', of k2] obtain load cd2 where
      run2: "dbs_update k2 p s' = Some (load, s'\<lparr>cpu_dbs := cd2\<rparr>)"
      and cdj2: "cd2 j = snd (dbs_update_cpu k2 ig io (sampling_rate dbs) j (cpu_dbs s' j))"
      and up2: "\<And>l. fst (dbs_update_cpu k2 ig io (sampling_rate dbs) j (cpu_dbs s' j)) = Some l \<Longrightarrow> l \<le> load"
      using j unfolding ig_def io_def f by (simp only: mult_1_right) blast
    have l2: "fst (dbs_update_cpu k2 ig io (sampling_rate dbs) j (cpu_dbs s' j)) = Some (100 * (w2 - i2) div w2)"
      unfolding dbs_update_cpu_load w2 [symmetric] i2 [symmetric] using c2 zero by simp
    have p2: "prev_load (cd2 j) = 100 * (w2 - i2) div w2"
      unfolding cdj2 dbs_update_cpu_prev_load w2 [symmetric] i2 [symmetric] using c2 zero by simp
    from up2 [OF l2] p2 have "prev_load (cd2 j) \<le> load" by simp
    with run2 l2 p2 show ?thesis by simp
  qed
  show ?thesis
    using run mem'(3) f(1,2) cpus hook sample by blast
qed

theorem cpufreq_governor_start_fresh_witness:
  "policy_mem state_stopped 1 = Some policy0 \<and> cur policy0 \<noteq> 0
    \<and> (\<exists>s'. cpufreq_governor_start kernel0 1 state_stopped = Some (Inr (), s')
          \<and> (\<exists>pdi'. policy_dbs_mem s' 10 = Some pdi' \<and> last_sample_time pdi' = 0
                \<and> sample_delay_ns pdi' = 20000000)
          \<and> prev_load (cpu_dbs s' 0) = 0 \<and> prev_load (cpu_dbs s' 1) = 0
          \<and> dbs_update_util_handler 0 19999999 s' = Some s'
          \<and> (\<exists>s''. dbs_update_util_handler 0 20000000 s' = Some s''
                \<and> trace s'' = trace s' @ [Irq_work_queue 10])
          \<and> wall_delta kernel2 0 0 (cpu_dbs s' 0) = 100000
          \<and> idle_delta kernel2 0 0 0 (cpu_dbs s' 0) = 80000
          \<and> (\<exists>s''. dbs_update kernel2 1 s' = Some (20, s'') \<and> prev_load (cpu_dbs s'' 0) = 20))"
proof -
  have mem: "policy_mem state_stopped 1 = Some policy0" "governor_data policy0 = Some 10"
    "policy_dbs_mem state_stopped 10 =
      Some (policy_dbs0\<lparr>sample_delay_ns := 0, last_sample_time := 987654321000\<rparr>)"
    "pd_dbs_data (policy_dbs0\<lparr>sample_delay_ns := 0, last_sample_time := 987654321000\<rparr>) = Some 20"
    "dbs_data_mem state_stopped 20 = Some dbs_data0"
    by (simp_all add: state_stopped_def state0_def policy0_def policy_dbs0_def)
  have cur: "cur policy0 \<noteq> 0" by (simp add: policy0_def)
  have bp: "pd_policy (policy_dbs0\<lparr>sample_delay_ns := 0, last_sample_time := 987654321000\<rparr>) = Some 1"
    by (simp add: policy_dbs0_def)
  have run: "\<exists>s'. cpufreq_governor_start kernel0 1 state_stopped = Some (Inr (), s')
          \<and> (\<exists>pdi'. policy_dbs_mem s' 10 = Some pdi' \<and> last_sample_time pdi' = 0
                \<and> sample_delay_ns pdi' = 20000000)
          \<and> prev_load (cpu_dbs s' 0) = 0 \<and> prev_load (cpu_dbs s' 1) = 0
          \<and> dbs_update_util_handler 0 19999999 s' = Some s'
          \<and> (\<exists>s''. dbs_update_util_handler 0 20000000 s' = Some s''
                \<and> trace s'' = trace s' @ [Irq_work_queue 10])
          \<and> wall_delta kernel2 0 0 (cpu_dbs s' 0) = 100000
          \<and> idle_delta kernel2 0 0 0 (cpu_dbs s' 0) = 80000
          \<and> (\<exists>s''. dbs_update kernel2 1 s' = Some (20, s'') \<and> prev_load (cpu_dbs s'' 0) = 20)"
    using cpufreq_governor_start_fresh [OF mem cur bp, of kernel0]
    by (simp add: cpufreq_governor_start_def gov_set_update_util_def gov_update_sample_delay_def
        emit_def start_cpu_def policy_is_shared_def dbs_update_util_handler_def
        dbs_update_def dbs_update_cpu_def wall_delta_def idle_delta_def for_each_cpu_def
        state_stopped_def state0_def policy0_def policy_dbs0_def dbs_data0_def cdbs0_def
        kernel0_def kernel2_def)
  from mem(1) cur run show ?thesis by simp
qed


subsection \<open>The cached loads stay bounded\<close>

text \<open>
  The bound on the cached loads that the statement about the load of \<^verbatim>\<open>dbs_update\<close> assumes
  is an invariant of the file. The per-processor data is static storage, so every cached
  load is 0 at first; the transitions of \<^verbatim>\<open>cpufreq_governor_dbs\<close> leave a cached load as it
  is or set it to 0; \<^verbatim>\<open>dbs_update\<close> keeps the bound; \<^verbatim>\<open>store_sampling_rate\<close> and the
  utilization update handler do not touch the per-processor data.
\<close>

lemma cache_bounded_initially: "\<forall>j. prev_load (cpu_dbs s j) = 0 \<Longrightarrow> cache_bounded s"
  by (simp add: cache_bounded_def)

lemma emit_cpu_dbs [simp]: "cpu_dbs (emit es s) = cpu_dbs s"
  by (simp add: emit_def)

lemma gov_update_sample_delay_cpu_dbs:
  "gov_update_sample_delay pd us s = Some s' \<Longrightarrow> cpu_dbs s' = cpu_dbs s"
  by (auto simp: gov_update_sample_delay_def Let_def split: Option.bind_splits)

lemma set_governor_data_cpu_dbs:
  "set_governor_data p v s = Some s' \<Longrightarrow> cpu_dbs s' = cpu_dbs s"
  by (auto simp: set_governor_data_def split: Option.bind_splits)

lemma set_pd_dbs_data_cpu_dbs:
  "set_pd_dbs_data p v s = Some s' \<Longrightarrow> cpu_dbs s' = cpu_dbs s"
  by (auto simp: set_pd_dbs_data_def split: Option.bind_splits)

lemma gov_attr_set_cpu_dbs:
  "gov_attr_set_init d pd s = Some s' \<Longrightarrow> cpu_dbs s' = cpu_dbs s"
  "gov_attr_set_get d pd s = Some s' \<Longrightarrow> cpu_dbs s' = cpu_dbs s"
  "gov_attr_set_put d pd s = Some (c, s') \<Longrightarrow> cpu_dbs s' = cpu_dbs s"
  by (auto simp: gov_attr_set_init_def gov_attr_set_get_def gov_attr_set_put_def Let_def
      split: Option.bind_splits if_splits)

lemma fold_set_hook:
  "fold (\<lambda>j cd. cd(j := (cd j)\<lparr>update_util_func := b, cdbs_policy_dbs := v\<rparr>)) (for_each_cpu m) cd0 =
    (\<lambda>j. if j \<in> set m then (cd0 j)\<lparr>update_util_func := b, cdbs_policy_dbs := v\<rparr> else cd0 j)"
  using fold_cpu_update [where f = "\<lambda>j c. c\<lparr>update_util_func := b, cdbs_policy_dbs := v\<rparr>"
      and js = "for_each_cpu m" and ?cd0.0 = cd0]
  by simp

lemma alloc_policy_dbs_info_cache:
  "alloc_policy_dbs_info k p s = Some (r, s') \<Longrightarrow> prev_load (cpu_dbs s' j) = prev_load (cpu_dbs s j)"
  by (auto simp: alloc_policy_dbs_info_def Let_def fold_set_hook
      split: option.splits Option.bind_splits prod.splits)

lemma free_policy_dbs_info_cache:
  "free_policy_dbs_info pd s = Some s' \<Longrightarrow> prev_load (cpu_dbs s' j) = prev_load (cpu_dbs s j)"
  by (auto simp: free_policy_dbs_info_def Let_def fold_set_hook
      split: option.splits Option.bind_splits prod.splits)

lemma cpufreq_governor_init_locked_cache:
  "cpufreq_governor_init_locked k p pd s = Some (r, s') \<Longrightarrow>
    prev_load (cpu_dbs s' j) = prev_load (cpu_dbs s j)"
  by (auto simp: cpufreq_governor_init_locked_def Let_def
      split: option.splits Option.bind_splits prod.splits sum.splits if_splits
      dest!: gov_attr_set_cpu_dbs set_governor_data_cpu_dbs set_pd_dbs_data_cpu_dbs
      dest: free_policy_dbs_info_cache [where j = j])

lemma cpufreq_governor_init_cache:
  "cpufreq_governor_init k p s = Some (r, s') \<Longrightarrow>
    prev_load (cpu_dbs s' j) = prev_load (cpu_dbs s j)"
  apply (auto simp: cpufreq_governor_init_def Let_def
      split: option.splits Option.bind_splits prod.splits if_splits
      dest: alloc_policy_dbs_info_cache [where j = j])
  apply (drule alloc_policy_dbs_info_cache [where j = j])
  apply (drule cpufreq_governor_init_locked_cache [where j = j])
  apply simp
  done

lemma cpufreq_governor_exit_cache:
  "cpufreq_governor_exit k p s = Some (r, s') \<Longrightarrow>
    prev_load (cpu_dbs s' j) = prev_load (cpu_dbs s j)"
  by (auto simp: cpufreq_governor_exit_def Let_def
      split: option.splits Option.bind_splits prod.splits if_splits
      dest!: gov_attr_set_cpu_dbs set_governor_data_cpu_dbs
      dest: free_policy_dbs_info_cache [where j = j])

lemma cpufreq_governor_start_cache:
  "cpufreq_governor_start k p s = Some (r, s') \<Longrightarrow>
    prev_load (cpu_dbs s' j) = prev_load (cpu_dbs s j) \<or> prev_load (cpu_dbs s' j) = 0"
  by (auto simp: cpufreq_governor_start_def gov_set_update_util_def Let_def fold_cpu_update
      start_cpu_fields
      split: option.splits Option.bind_splits prod.splits if_splits
      dest!: gov_update_sample_delay_cpu_dbs)

lemma cpufreq_governor_stop_cache:
  "cpufreq_governor_stop p s = Some (r, s') \<Longrightarrow> cpu_dbs s' = cpu_dbs s"
  by (auto simp: cpufreq_governor_stop_def gov_cancel_work_def gov_clear_update_util_def Let_def
      split: option.splits Option.bind_splits prod.splits if_splits)

lemma cpufreq_governor_limits_cache:
  "cpufreq_governor_limits k p s = Some (r, s') \<Longrightarrow> cpu_dbs s' = cpu_dbs s"
  by (auto simp: cpufreq_governor_limits_def cpufreq_driver_target_def Let_def
      split: option.splits Option.bind_splits prod.splits if_splits
      dest!: gov_update_sample_delay_cpu_dbs)

lemma cpufreq_governor_dbs_cache_bounded:
  assumes "cpufreq_governor_dbs k p event s = Some (r, s')" "cache_bounded s"
  shows "cache_bounded s'"
proof -
  have "prev_load (cpu_dbs s' j) = prev_load (cpu_dbs s j) \<or> prev_load (cpu_dbs s' j) = 0" for j
    using assms(1) cpufreq_governor_init_cache [of k p s r s' j]
      cpufreq_governor_exit_cache [of k p s r s' j] cpufreq_governor_start_cache [of k p s r s' j]
      cpufreq_governor_stop_cache [of p s r s'] cpufreq_governor_limits_cache [of k p s r s']
    by (auto simp: cpufreq_governor_dbs_def split: if_splits Option.bind_splits)
  with assms(2) show ?thesis unfolding cache_bounded_def by (metis word_le_0_iff word_zero_le)
qed

lemma dbs_update_cache_bounded:
  assumes run: "dbs_update k p s = Some (load, s')" and inv: "cache_bounded s"
  shows "cache_bounded s' \<and> load \<le> 100"
proof -
  from run obtain policy pd policy_dbs d dbs where
    mem: "policy_mem s p = Some policy" "governor_data policy = Some pd"
      "policy_dbs_mem s pd = Some policy_dbs" "pd_dbs_data policy_dbs = Some d"
      "dbs_data_mem s d = Some dbs"
    by (auto simp: dbs_update_def split: Option.bind_splits)
  have c: "\<forall>j\<in>set (cpus policy). prev_load (cpu_dbs s j) \<le> 100"
    using inv by (simp add: cache_bounded_def)
  from dbs_update_result [OF mem, of k] run obtain cd where
    s': "s' = s\<lparr>cpu_dbs := cd\<rparr>"
    and cd: "\<And>j. j \<in> set (cpus policy) \<Longrightarrow> cd j = snd (dbs_update_cpu k (ignore_nice_load dbs)
        (io_is_busy dbs) (sampling_rate dbs * rate_mult policy_dbs) j (cpu_dbs s j))"
    and other: "\<And>j. j \<notin> set (cpus policy) \<Longrightarrow> cd j = cpu_dbs s j"
    by auto
  have "prev_load (cd j) \<le> 100" for j
  proof (cases "j \<in> set (cpus policy)")
    case True
    from inv have b: "prev_load (cpu_dbs s j) \<le> 100" by (simp add: cache_bounded_def)
    show ?thesis
      unfolding cd [OF True] dbs_update_cpu_prev_load
      using b load_le_100 [of "wall_delta k (io_is_busy dbs) j (cpu_dbs s j)"
          "idle_delta k (ignore_nice_load dbs) (io_is_busy dbs) j (cpu_dbs s j)"]
      by auto
  next
    case False
    with inv show ?thesis by (simp add: other cache_bounded_def)
  qed
  then have "cache_bounded s'" by (simp add: s' cache_bounded_def)
  moreover have "load \<le> 100"
  proof -
    have l: "dbs_update k p s = Some (fst (dbs_update_loop k (ignore_nice_load dbs) (io_is_busy dbs)
                (sampling_rate dbs * rate_mult policy_dbs) (for_each_cpu (cpus policy)) 0 (cpu_dbs s)),
          s\<lparr>cpu_dbs := snd (dbs_update_loop k (ignore_nice_load dbs) (io_is_busy dbs)
                (sampling_rate dbs * rate_mult policy_dbs) (for_each_cpu (cpus policy)) 0 (cpu_dbs s))\<rparr>)"
      by (rule dbs_update_eq [OF mem])
    define ld where "ld = fst (dbs_update_loop k (ignore_nice_load dbs) (io_is_busy dbs)
                (sampling_rate dbs * rate_mult policy_dbs) (for_each_cpu (cpus policy)) 0 (cpu_dbs s))"
    from l run have e: "load = ld" by (simp add: ld_def)
    from dbs_update_loop_attained [of "for_each_cpu (cpus policy)" k "ignore_nice_load dbs" "io_is_busy dbs"
        "sampling_rate dbs * rate_mult policy_dbs" 0 "cpu_dbs s"]
    consider "ld = 0" | j where "j \<in> set (cpus policy)"
      "fst (dbs_update_cpu k (ignore_nice_load dbs) (io_is_busy dbs)
        (sampling_rate dbs * rate_mult policy_dbs) j (cpu_dbs s j)) = Some ld"
      unfolding ld_def by auto
    then have "ld \<le> 100"
    proof cases
      case 1
      then show ?thesis by simp
    next
      case 2
      from inv have b: "prev_load (cpu_dbs s j) \<le> 100" by (simp add: cache_bounded_def)
      from 2(2) show ?thesis
        unfolding dbs_update_cpu_load
        using b load_le_100 [of "wall_delta k (io_is_busy dbs) j (cpu_dbs s j)"
          "idle_delta k (ignore_nice_load dbs) (io_is_busy dbs) j (cpu_dbs s j)"]
        by (auto split: if_splits)
    qed
    with e show ?thesis by simp
  qed
  ultimately show ?thesis by simp
qed

lemma store_cache_bounded:
  "store_sampling_rate k d buf count s = Some (r, s') \<Longrightarrow> cpu_dbs s' = cpu_dbs s"
proof -
  have loop: "store_sampling_rate_loop pds s0 = Some s1 \<Longrightarrow> cpu_dbs s1 = cpu_dbs s0" for pds s0 s1
    by (induction pds arbitrary: s0)
      (auto split: Option.bind_splits dest!: gov_update_sample_delay_cpu_dbs)
  show "store_sampling_rate k d buf count s = Some (r, s') \<Longrightarrow> cpu_dbs s' = cpu_dbs s"
    by (auto simp: store_sampling_rate_def Let_def split: option.splits Option.bind_splits dest!: loop)
qed

lemma dbs_update_util_handler_cache:
  "dbs_update_util_handler cpu time s = Some s' \<Longrightarrow> cpu_dbs s' = cpu_dbs s"
  by (auto simp: dbs_update_util_handler_def Let_def split: Option.bind_splits if_splits)

end
